theory Spec2Isabelle
  imports Complex_Main "HOL-Library.Multiset"
begin

section \<open>The FastMRI workload (Jax): a shallow embedding\<close>

text \<open>
  The source is \<^verbatim>\<open>algorithmic_efficiency/workloads/fastmri/fastmri_jax/workload.py\<close>,
  the class \<^verbatim>\<open>FastMRIWorkload\<close>. Names are the source's; a leading underscore is
  dropped (\<^verbatim>\<open>_eval_model\<close> is \<open>eval_model\<close>, \<^verbatim>\<open>self._eval_iters\<close> is the field
  \<open>eval_iters\<close>), since an Isabelle name cannot start with one.

  Conventions of the model:
  \<^item> A number is a real or one of the three special values of the floating-point
    formats; the sign of zero is not modelled, and a zero divisor counts as positive
    zero. The operations on whole arrays (\<open>fadd\<close>, \<open>fdiv\<close>: subtraction, sums and means of
    entries, the sum over devices) are taken without rounding, since the library fixes
    neither their order of summation nor their fusion. The scalar operations of the
    Python code are taken with their rounding: the quotient of two Python integers is
    the nearest double, and the running sums and the final quotients of the evaluation
    loop are single float32 operations (the library's default precision), rounded to
    nearest, ties to even.
  \<^item> A value that carries a leading device axis (replicated parameters, a sharded batch,
    the per-device random keys, a per-device output) is the list of its per-device
    slices.
  \<^item> A Python exception is a value \<open>Inl e\<close>; a method that mutates \<^verbatim>\<open>self\<close> returns the
    new object next to its result, also when it raises.
  \<^item> The collaborators that the file imports (the network, the structural-similarity
    function, the input pipeline, the key splitter, the device count, the two library
    activations) are the fields of a record \<open>env\<close> that every method takes.
\<close>

subsection \<open>Numbers\<close>

datatype num = Fin real | PInf | NInf | NaN

fun fadd :: "num \<Rightarrow> num \<Rightarrow> num" where
  "fadd NaN _ = NaN"
| "fadd _ NaN = NaN"
| "fadd PInf NInf = NaN"
| "fadd NInf PInf = NaN"
| "fadd PInf _ = PInf"
| "fadd _ PInf = PInf"
| "fadd NInf _ = NInf"
| "fadd _ NInf = NInf"
| "fadd (Fin a) (Fin b) = Fin (a + b)"

fun fneg :: "num \<Rightarrow> num" where
  "fneg (Fin a) = Fin (- a)"
| "fneg PInf = NInf"
| "fneg NInf = PInf"
| "fneg NaN = NaN"

definition fsub :: "num \<Rightarrow> num \<Rightarrow> num" where
  "fsub a b = fadd a (fneg b)"

fun fabs :: "num \<Rightarrow> num" where
  "fabs (Fin a) = Fin \<bar>a\<bar>"
| "fabs PInf = PInf"
| "fabs NInf = PInf"
| "fabs NaN = NaN"

text \<open>Division of the array library: it never raises; a zero divisor gives a special value.\<close>

fun fdiv :: "num \<Rightarrow> num \<Rightarrow> num" where
  "fdiv NaN _ = NaN"
| "fdiv _ NaN = NaN"
| "fdiv (Fin a) (Fin b) =
     (if b \<noteq> 0 then Fin (a / b)
      else if 0 < a then PInf else if a < 0 then NInf else NaN)"
| "fdiv (Fin a) PInf = Fin 0"
| "fdiv (Fin a) NInf = Fin 0"
| "fdiv PInf (Fin b) = (if 0 \<le> b then PInf else NInf)"
| "fdiv NInf (Fin b) = (if 0 \<le> b then NInf else PInf)"
| "fdiv PInf PInf = NaN"
| "fdiv PInf NInf = NaN"
| "fdiv NInf PInf = NaN"
| "fdiv NInf NInf = NaN"

text \<open>A sum of entries, from zero on, as \<^verbatim>\<open>jnp.sum\<close> and the sum over devices take it.\<close>

definition fsum :: "num list \<Rightarrow> num" where
  "fsum xs = foldl fadd (Fin 0) xs"

fun is_finite :: "num \<Rightarrow> bool" where
  "is_finite (Fin a) = True"
| "is_finite _ = False"

subsection \<open>Rounded scalar arithmetic\<close>

text \<open>
  Rounding to the nearest integer, ties to the even one; the binade of a real, that is
  the exponent \<open>e\<close> with \<open>2 ^ e \<le> |x| < 2 ^ (e + 1)\<close>; and the rounding of a real to a binary
  format of precision \<open>p\<close> and least normal exponent \<open>emin\<close>, whose neighbouring values
  around \<open>x\<close> lie \<open>ulp p emin x\<close> apart (subnormal below \<open>2 ^ emin\<close>). The exponent is not
  bounded above here: the overflow is decided where the rounding is used.
\<close>

definition round_half_even :: "real \<Rightarrow> int" where
  "round_half_even y =
     (let f = \<lfloor>y\<rfloor>
      in if y - of_int f < 1 / 2 then f
         else if 1 / 2 < y - of_int f then f + 1
         else if even f then f else f + 1)"

definition binade :: "real \<Rightarrow> int" where
  "binade x = \<lfloor>log 2 \<bar>x\<bar>\<rfloor>"

definition ulp :: "int \<Rightarrow> int \<Rightarrow> real \<Rightarrow> real" where
  "ulp p emin x = 2 powr of_int (max (binade x) emin - p + 1)"

definition round_float :: "int \<Rightarrow> int \<Rightarrow> real \<Rightarrow> real" where
  "round_float p emin x =
     (if x = 0 then 0 else of_int (round_half_even (x / ulp p emin x)) * ulp p emin x)"

text \<open>
  The float32 value and the double nearest to a real: 24 and 53 bits of precision,
  least normal exponents -126 and -1022, infinite from \<open>2 ^ 128\<close> and \<open>2 ^ 1024\<close> on.
\<close>

definition float32 :: "real \<Rightarrow> num" where
  "float32 x =
     (let r = round_float 24 (- 126) x
      in if 2 ^ 128 \<le> r then PInf else if r \<le> - (2 ^ 128) then NInf else Fin r)"

definition float64 :: "real \<Rightarrow> num" where
  "float64 x =
     (let r = round_float 53 (- 1022) x
      in if 2 ^ 1024 \<le> r then PInf else if r \<le> - (2 ^ 1024) then NInf else Fin r)"

text \<open>Addition and division of a format, given its rounding \<open>rnd\<close>.\<close>

fun float_add :: "(real \<Rightarrow> num) \<Rightarrow> num \<Rightarrow> num \<Rightarrow> num" where
  "float_add rnd NaN _ = NaN"
| "float_add rnd _ NaN = NaN"
| "float_add rnd PInf NInf = NaN"
| "float_add rnd NInf PInf = NaN"
| "float_add rnd PInf _ = PInf"
| "float_add rnd _ PInf = PInf"
| "float_add rnd NInf _ = NInf"
| "float_add rnd _ NInf = NInf"
| "float_add rnd (Fin a) (Fin b) = rnd (a + b)"

fun float_div :: "(real \<Rightarrow> num) \<Rightarrow> num \<Rightarrow> num \<Rightarrow> num" where
  "float_div rnd NaN _ = NaN"
| "float_div rnd _ NaN = NaN"
| "float_div rnd (Fin a) (Fin b) =
     (if b \<noteq> 0 then rnd (a / b)
      else if 0 < a then PInf else if a < 0 then NInf else NaN)"
| "float_div rnd (Fin a) PInf = Fin 0"
| "float_div rnd (Fin a) NInf = Fin 0"
| "float_div rnd PInf (Fin b) = (if 0 \<le> b then PInf else NInf)"
| "float_div rnd NInf (Fin b) = (if 0 \<le> b then NInf else PInf)"
| "float_div rnd PInf PInf = NaN"
| "float_div rnd PInf NInf = NaN"
| "float_div rnd NInf PInf = NaN"
| "float_div rnd NInf NInf = NaN"

definition f32_add :: "num \<Rightarrow> num \<Rightarrow> num" where
  "f32_add = float_add float32"

definition f32_div :: "num \<Rightarrow> num \<Rightarrow> num" where
  "f32_div = float_div float32"

definition f64_div :: "num \<Rightarrow> num \<Rightarrow> num" where
  "f64_div = float_div float64"

text \<open>The running float32 sum of the evaluation loop: from \<^verbatim>\<open>0.\<close> on, left to right.\<close>

definition f32_sum :: "num list \<Rightarrow> num" where
  "f32_sum xs = foldl f32_add (Fin 0) xs"

subsection \<open>Tensors\<close>

text \<open>An array: its shape and its entries in row-major order.\<close>

record tensor =
  shape :: "nat list"
  data :: "num list"

definition wf_tensor :: "tensor \<Rightarrow> bool" where
  "wf_tensor t = (length (data t) = prod_list (shape t))"

definition ndim :: "tensor \<Rightarrow> nat" where
  "ndim t = length (shape t)"

definition jnp_zeros :: "nat list \<Rightarrow> tensor" where
  "jnp_zeros s = \<lparr>shape = s, data = replicate (prod_list s) (Fin 0)\<rparr>"

definition jnp_sum :: "tensor \<Rightarrow> num" where
  "jnp_sum t = fsum (data t)"

definition jnp_abs :: "tensor \<Rightarrow> tensor" where
  "jnp_abs t = \<lparr>shape = shape t, data = map fabs (data t)\<rparr>"

datatype py_error =
  KeyError | AttributeError | ZeroDivisionError | OverflowError | ValueError | IndexError
  | BroadcastError

text \<open>
  Broadcasting of two shapes, aligned at the last axis and given here last axis first:
  two extents agree when they are equal or one of them is 1.
\<close>

fun broadcast_rev :: "nat list \<Rightarrow> nat list \<Rightarrow> nat list option" where
  "broadcast_rev [] ys = Some ys"
| "broadcast_rev (x # xs) [] = Some (x # xs)"
| "broadcast_rev (x # xs) (y # ys) =
     (if x = y \<or> y = 1 then map_option ((#) x) (broadcast_rev xs ys)
      else if x = 1 then map_option ((#) y) (broadcast_rev xs ys)
      else None)"

definition broadcast_shapes :: "nat list \<Rightarrow> nat list \<Rightarrow> nat list option" where
  "broadcast_shapes a b = map_option rev (broadcast_rev (rev a) (rev b))"

text \<open>Row-major position of a multi-index, and the multi-index of a position.\<close>

fun ravel :: "nat list \<Rightarrow> nat list \<Rightarrow> nat" where
  "ravel (d # ds) (j # js) = j * prod_list ds + ravel ds js"
| "ravel _ _ = 0"

fun unravel :: "nat list \<Rightarrow> nat \<Rightarrow> nat list" where
  "unravel [] i = []"
| "unravel (d # ds) i = (i div prod_list ds) # unravel ds (i mod prod_list ds)"

definition broadcast_index :: "nat list \<Rightarrow> nat list \<Rightarrow> nat \<Rightarrow> nat" where
  "broadcast_index src out i =
     ravel src (map2 (\<lambda>d j. if d = 1 then 0 else j) src
                  (drop (length out - length src) (unravel out i)))"

definition broadcast_to :: "tensor \<Rightarrow> nat list \<Rightarrow> tensor" where
  "broadcast_to t s =
     \<lparr>shape = s,
      data = map (\<lambda>i. data t ! broadcast_index (shape t) s i) [0..<prod_list s]\<rparr>"

definition jnp_subtract :: "tensor \<Rightarrow> tensor \<Rightarrow> py_error + tensor" where
  "jnp_subtract a b =
     (case broadcast_shapes (shape a) (shape b) of
        None \<Rightarrow> Inl BroadcastError
      | Some s \<Rightarrow>
          Inr \<lparr>shape = s,
               data = map2 fsub (data (broadcast_to a s)) (data (broadcast_to b s))\<rparr>)"

text \<open>
  \<^verbatim>\<open>x.mean(axis=tuple(range(1, k)))\<close>: the mean over the axes 1 to k - 1 of an
  array of at least k axes. With k at most 1 the tuple is empty and nothing is reduced.
  Otherwise the entries of the result are indexed by the first axis and the axes from
  k on; each is the sum over the reduced axes divided by their size \<open>m\<close>.
\<close>

definition mean_axes_from_1 :: "nat \<Rightarrow> tensor \<Rightarrow> tensor" where
  "mean_axes_from_1 k x =
     (if k \<le> 1 then x
      else
        let d0 = hd (shape x);
            m = prod_list (take (k - 1) (tl (shape x)));
            t = prod_list (drop k (shape x))
        in \<lparr>shape = d0 # drop k (shape x),
            data = map (\<lambda>p. fdiv (fsum (map (\<lambda>j. data x ! (((p div t) * m + j) * t + p mod t))
                                           [0..<m]))
                                (Fin (real m)))
                       [0..<d0 * t]\<rparr>)"

subsection \<open>The types of the harness\<close>

text \<open>
  Modelled from the spec: the enumerations \<^verbatim>\<open>spec.ForwardPassMode\<close> and
  \<^verbatim>\<open>spec.LossType\<close> are declared in the harness's \<^verbatim>\<open>spec\<close> module, which is not
  part of the source at hand. The modes are the spec's train and eval; the loss kinds are
  the four that the source names, and \<open>OTHER_LOSS\<close> stands for any kind that the
  selector's table does not list.
\<close>

datatype ForwardPassMode = TRAIN | EVAL

datatype LossType =
  SOFTMAX_CROSS_ENTROPY | SIGMOID_CROSS_ENTROPY | MEAN_SQUARED_ERROR | MEAN_ABSOLUTE_ERROR
  | OTHER_LOSS string

datatype 'a pytree = Leaf 'a | Node "(string \<times> 'a pytree) list"

type_synonym RandomState = "nat list"
type_synonym ParameterContainer = "tensor pytree"
type_synonym ModelAuxiliaryState = "tensor pytree option"
type_synonym batch = "string \<rightharpoonup> tensor"

text \<open>
  An input iterator that repeats indefinitely: the sequence of the sharded batches that
  it still has to yield. \<^verbatim>\<open>next\<close> returns the first and leaves the rest.
\<close>

type_synonym iterator = "nat \<Rightarrow> batch list"

definition next_batch :: "iterator \<Rightarrow> batch list \<times> iterator" where
  "next_batch it = (it 0, \<lambda>i. it (Suc i))"

text \<open>
  The collaborators, which the source imports and this development takes as parameters:
  \<^item> \<open>unet_init rng x\<close> is \<^verbatim>\<open>jax.jit(models.UNet().init)({'params': rng}, x)\<close>, the
    dictionary of variable collections;
  \<^item> \<open>unet_apply dropout_rate params x rng train\<close> is
    \<^verbatim>\<open>models.UNet(dropout_rate=dropout_rate).apply({'params': params}, x,
    rngs={'dropout': rng}, train=train)\<close>;
  \<^item> \<open>ssim targets outputs mean std volume_max\<close> is the structural-similarity function,
    which returns one score per example;
  \<^item> \<open>build_input_queue data_rng split data_dir global_batch_size repeat_final_dataset\<close>
    is the method of the base class;
  \<^item> \<open>prng_split rng n\<close> is \<^verbatim>\<open>prng.split(rng, n)\<close>, and \<open>local_device_count\<close> is
    \<^verbatim>\<open>jax.local_device_count()\<close>;
  \<^item> \<open>softmax\<close> and \<open>sigmoid\<close> are \<^verbatim>\<open>jax.nn.softmax\<close> and \<^verbatim>\<open>jax.nn.sigmoid\<close>.
\<close>

record env =
  unet_init :: "RandomState \<Rightarrow> tensor \<Rightarrow> (string \<rightharpoonup> ParameterContainer)"
  unet_apply :: "num option \<Rightarrow> ParameterContainer \<Rightarrow> tensor \<Rightarrow> RandomState \<Rightarrow> bool \<Rightarrow> tensor"
  ssim :: "tensor \<Rightarrow> tensor \<Rightarrow> tensor \<Rightarrow> tensor \<Rightarrow> tensor \<Rightarrow> tensor"
  build_input_queue :: "RandomState \<Rightarrow> string \<Rightarrow> string \<Rightarrow> int \<Rightarrow> bool \<Rightarrow> iterator"
  prng_split :: "RandomState \<Rightarrow> nat \<Rightarrow> RandomState list"
  local_device_count :: nat
  softmax :: "tensor \<Rightarrow> tensor"
  sigmoid :: "tensor \<Rightarrow> tensor"

text \<open>
  The workload object: the recorded parameter shapes and the cache of iterators. The
  field \<^verbatim>\<open>_param_types\<close> is only touched by the property \<^verbatim>\<open>model_params_types\<close>,
  which no statement below is about, and is left out.
\<close>

record workload =
  param_shapes :: "nat list pytree option"
  eval_iters :: "string \<rightharpoonup> iterator"

subsection \<open>init_model_fn\<close>

definition jax_utils_replicate :: "env \<Rightarrow> 'a \<Rightarrow> 'a list" where
  "jax_utils_replicate env x = replicate (local_device_count env) x"

definition init_model_fn ::
  "env \<Rightarrow> workload \<Rightarrow> RandomState
     \<Rightarrow> (py_error + ParameterContainer list \<times> ModelAuxiliaryState) \<times> workload" where
  "init_model_fn env self rng =
     (let fake_batch = jnp_zeros [13, 320, 320];
          variables = unet_init env rng fake_batch
      in case variables ''params'' of
           None \<Rightarrow> (Inl KeyError, self)
         | Some params \<Rightarrow>
             (let self' = self\<lparr>param_shapes := Some (map_pytree shape params)\<rparr>;
                  params' = jax_utils_replicate env params
              in (Inr (params', None), self')))"

subsection \<open>model_fn\<close>

definition model_fn ::
  "env \<Rightarrow> ParameterContainer \<Rightarrow> batch \<Rightarrow> ModelAuxiliaryState \<Rightarrow> ForwardPassMode
     \<Rightarrow> RandomState \<Rightarrow> num option \<Rightarrow> num option \<Rightarrow> bool
     \<Rightarrow> py_error + tensor \<times> ModelAuxiliaryState" where
  "model_fn env params augmented_and_preprocessed_input_batch model_state mode rng
       dropout_rate aux_dropout_rate update_batch_norm =
     (let train = (mode = TRAIN)
      in case augmented_and_preprocessed_input_batch ''inputs'' of
           None \<Rightarrow> Inl KeyError
         | Some inputs \<Rightarrow>
             (let logits = unet_apply env dropout_rate params inputs rng train
              in Inr (logits, None)))"

subsection \<open>output_activation_fn\<close>

definition activation_fn :: "env \<Rightarrow> (LossType \<times> (tensor \<Rightarrow> tensor)) list" where
  "activation_fn env =
     [(SOFTMAX_CROSS_ENTROPY, softmax env),
      (SIGMOID_CROSS_ENTROPY, sigmoid env),
      (MEAN_SQUARED_ERROR, \<lambda>z. z),
      (MEAN_ABSOLUTE_ERROR, \<lambda>z. z)]"

definition output_activation_fn :: "env \<Rightarrow> tensor \<Rightarrow> LossType \<Rightarrow> py_error + tensor" where
  "output_activation_fn env logits_batch loss_type =
     (case map_of (activation_fn env) loss_type of
        None \<Rightarrow> Inl KeyError
      | Some f \<Rightarrow> Inr (f logits_batch))"

subsection \<open>loss_fn\<close>

definition loss_fn :: "tensor \<Rightarrow> tensor \<Rightarrow> py_error + tensor" where
  "loss_fn label_batch outputs_batch =
     (case jnp_subtract outputs_batch label_batch of
        Inl e \<Rightarrow> Inl e
      | Inr d \<Rightarrow> Inr (mean_axes_from_1 (ndim outputs_batch) (jnp_abs d)))"

subsection \<open>_eval_model\<close>

text \<open>
  The body of \<^verbatim>\<open>_eval_model\<close> on one device, up to the dictionary of line 103: the
  three local sums, in the order \<^verbatim>\<open>'ssim'\<close>, \<^verbatim>\<open>'loss'\<close>, \<^verbatim>\<open>'weight'\<close>.
\<close>

definition eval_model_local ::
  "env \<Rightarrow> ParameterContainer \<Rightarrow> batch \<Rightarrow> RandomState \<Rightarrow> py_error + num \<times> num \<times> num" where
  "eval_model_local env params batch rng =
     (case model_fn env params batch None EVAL rng (Some (Fin 0)) None False of
        Inl e \<Rightarrow> Inl e
      | Inr (outputs, _) \<Rightarrow>
          (case (batch ''targets'', batch ''mean'', batch ''std'', batch ''volume_max'') of
             (Some targets, Some mean, Some std, Some volume_max) \<Rightarrow>
               (let ssim_vals = ssim env targets outputs mean std volume_max;
                    ssim_sum = jnp_sum ssim_vals
                in case loss_fn targets outputs of
                     Inl e \<Rightarrow> Inl e
                   | Inr losses \<Rightarrow>
                       (let loss = jnp_sum losses
                        in case batch ''weights'' of
                             None \<Rightarrow> Inl KeyError
                           | Some weights \<Rightarrow> Inr (ssim_sum, loss, jnp_sum weights)))
           | _ \<Rightarrow> Inl KeyError))"

text \<open>\<^verbatim>\<open>jax.lax.psum\<close> of one leaf: every device receives the sum over the devices.\<close>

definition psum :: "num list \<Rightarrow> num list" where
  "psum xs = replicate (length xs) (fsum xs)"

text \<open>The first error of a list of results, or all the values.\<close>

fun collect :: "('e + 'a) list \<Rightarrow> 'e + 'a list" where
  "collect [] = Inr []"
| "collect (Inl e # rs) = Inl e"
| "collect (Inr x # rs) = (case collect rs of Inl e \<Rightarrow> Inl e | Inr xs \<Rightarrow> Inr (x # xs))"

text \<open>
  \<^verbatim>\<open>_eval_model\<close> under \<^verbatim>\<open>jax.pmap\<close> with \<^verbatim>\<open>in_axes=(None, 0, 0, 0)\<close>: the three
  arguments after \<^verbatim>\<open>self\<close> are mapped along their device axis, whose sizes must agree
  and fit the devices at hand; on an empty device axis the mapping raises
  \<open>ZeroDivisionError\<close>. The result maps each key to the array of its per-device values.
\<close>

definition eval_model ::
  "env \<Rightarrow> ParameterContainer list \<Rightarrow> batch list \<Rightarrow> RandomState list
     \<Rightarrow> py_error + (string \<times> num list) list" where
  "eval_model env params batch rng =
     (if length params \<noteq> length batch \<or> length rng \<noteq> length batch
         \<or> local_device_count env < length batch
      then Inl ValueError
      else if batch = [] then Inl ZeroDivisionError
      else case collect (map (\<lambda>(p, b, r). eval_model_local env p b r)
                             (zip params (zip batch rng))) of
             Inl e \<Rightarrow> Inl e
           | Inr ms \<Rightarrow>
               Inr [(''ssim'', psum (map (\<lambda>(s, l, w). s) ms)),
                    (''loss'', psum (map (\<lambda>(s, l, w). l) ms)),
                    (''weight'', psum (map (\<lambda>(s, l, w). w) ms))])"

subsection \<open>_eval_model_on_split\<close>

text \<open>
  A number held by the evaluation loop is a Python float (the initial \<^verbatim>\<open>0.\<close>) or a
  scalar array of the library; only the latter has \<^verbatim>\<open>.item()\<close>.
\<close>

datatype pyval = PyFloat num | JaxArray num

fun py_num :: "pyval \<Rightarrow> num" where
  "py_num (PyFloat a) = a"
| "py_num (JaxArray a) = a"

text \<open>
  \<^verbatim>\<open>v + synced_metrics[k][0]\<close>: the right operand is a float32 array, so is the sum,
  also when \<open>v\<close> is still the Python float.
\<close>

definition py_add_array :: "pyval \<Rightarrow> num \<Rightarrow> pyval" where
  "py_add_array v x = JaxArray (f32_add (py_num v) x)"

text \<open>\<^verbatim>\<open>{k: v + synced_metrics[k][0] for k, v in total_metrics.items()}\<close>\<close>

fun accumulate ::
  "(string \<times> pyval) list \<Rightarrow> (string \<times> num list) list \<Rightarrow> py_error + (string \<times> pyval) list" where
  "accumulate [] synced_metrics = Inr []"
| "accumulate ((k, v) # rest) synced_metrics =
     (case map_of synced_metrics k of
        None \<Rightarrow> Inl KeyError
      | Some [] \<Rightarrow> Inl IndexError
      | Some (x # _) \<Rightarrow>
          (case accumulate rest synced_metrics of
             Inl e \<Rightarrow> Inl e
           | Inr rest' \<Rightarrow> Inr ((k, py_add_array v x) # rest')))"

text \<open>
  The loop \<^verbatim>\<open>for _ in range(num_batches)\<close>. The iterator is the one held in the cache;
  \<^verbatim>\<open>next\<close> advances it there.
\<close>

fun eval_loop ::
  "env \<Rightarrow> string \<Rightarrow> ParameterContainer list \<Rightarrow> RandomState list \<Rightarrow> nat
     \<Rightarrow> (string \<times> pyval) list \<Rightarrow> workload
     \<Rightarrow> (py_error + (string \<times> pyval) list) \<times> workload" where
  "eval_loop env split params eval_rngs 0 total_metrics self = (Inr total_metrics, self)"
| "eval_loop env split params eval_rngs (Suc n) total_metrics self =
     (case eval_iters self split of
        None \<Rightarrow> (Inl KeyError, self)
      | Some it \<Rightarrow>
          (let (batch, it') = next_batch it;
               self' = self\<lparr>eval_iters := (eval_iters self)(split \<mapsto> it')\<rparr>
           in case eval_model env params batch eval_rngs of
                Inl e \<Rightarrow> (Inl e, self')
              | Inr synced_metrics \<Rightarrow>
                  (case accumulate total_metrics synced_metrics of
                     Inl e \<Rightarrow> (Inl e, self')
                   | Inr total_metrics' \<Rightarrow>
                       eval_loop env split params eval_rngs n total_metrics' self')))"

text \<open>
  \<^verbatim>\<open>float(v.item() / num_examples)\<close>: a Python float has no \<^verbatim>\<open>.item()\<close>; a float
  divided by a float32 array is the library's float32 division, which never raises; a
  float divided by a float is Python's division of doubles, which raises on zero.
\<close>

definition normalize_value :: "pyval \<Rightarrow> pyval \<Rightarrow> py_error + num" where
  "normalize_value v num_examples =
     (case v of
        PyFloat _ \<Rightarrow> Inl AttributeError
      | JaxArray a \<Rightarrow>
          (case num_examples of
             JaxArray w \<Rightarrow> Inr (f32_div a w)
           | PyFloat w \<Rightarrow> if w = Fin 0 then Inl ZeroDivisionError else Inr (f64_div a w)))"

fun normalize_items :: "(string \<times> pyval) list \<Rightarrow> pyval \<Rightarrow> py_error + (string \<times> num) list" where
  "normalize_items [] num_examples = Inr []"
| "normalize_items ((k, v) # rest) num_examples =
     (case normalize_value v num_examples of
        Inl e \<Rightarrow> Inl e
      | Inr q \<Rightarrow>
          (case normalize_items rest num_examples of
             Inl e \<Rightarrow> Inl e
           | Inr rest' \<Rightarrow> Inr ((k, q) # rest')))"

text \<open>The last two lines: \<^verbatim>\<open>pop('weight')\<close>, then the normalised dictionary.\<close>

definition pop_and_normalize :: "(string \<times> pyval) list \<Rightarrow> py_error + (string \<times> num) list" where
  "pop_and_normalize total_metrics =
     (case map_of total_metrics ''weight'' of
        None \<Rightarrow> Inl KeyError
      | Some num_examples \<Rightarrow>
          normalize_items (filter (\<lambda>(k, v). k \<noteq> ''weight'') total_metrics) num_examples)"

text \<open>
  The quotient \<^verbatim>\<open>a / b\<close> of two Python integers: the double nearest to the exact
  quotient; a zero divisor raises, and so does a quotient too large for a double.
\<close>

definition py_int_truediv :: "int \<Rightarrow> int \<Rightarrow> py_error + real" where
  "py_int_truediv a b =
     (if b = 0 then Inl ZeroDivisionError
      else
        let r = round_float 53 (- 1022) (real_of_int a / real_of_int b)
        in if 2 ^ 1024 \<le> \<bar>r\<bar> then Inl OverflowError else Inr r)"

text \<open>
  The method itself. \<^verbatim>\<open>math.ceil\<close> of the float quotient is exact, and \<^verbatim>\<open>range\<close> of a
  negative number is empty.
\<close>

definition eval_model_on_split ::
  "env \<Rightarrow> workload \<Rightarrow> string \<Rightarrow> int \<Rightarrow> int \<Rightarrow> ParameterContainer list
     \<Rightarrow> ModelAuxiliaryState \<Rightarrow> RandomState \<Rightarrow> string \<Rightarrow> int
     \<Rightarrow> (py_error + (string \<times> num) list) \<times> workload" where
  "eval_model_on_split env self split num_examples global_batch_size params model_state rng
       data_dir global_step =
     (case prng_split env rng 2 of
        [data_rng, model_rng] \<Rightarrow>
          (let self1 =
                 (case eval_iters self split of
                    None \<Rightarrow>
                      self\<lparr>eval_iters := (eval_iters self)
                              (split \<mapsto> build_input_queue env data_rng split data_dir
                                          global_batch_size True)\<rparr>
                  | Some _ \<Rightarrow> self);
               total_metrics =
                 [(''ssim'', PyFloat (Fin 0)), (''loss'', PyFloat (Fin 0)),
                  (''weight'', PyFloat (Fin 0))]
           in case py_int_truediv num_examples global_batch_size of
                Inl e \<Rightarrow> (Inl e, self1)
              | Inr q \<Rightarrow>
                  (let num_batches = \<lceil>q\<rceil>;
                       eval_rngs = prng_split env model_rng (local_device_count env)
                   in case eval_loop env split params eval_rngs (nat num_batches)
                             total_metrics self1 of
                        (Inl e, self2) \<Rightarrow> (Inl e, self2)
                      | (Inr total_metrics', self2) \<Rightarrow>
                          (pop_and_normalize total_metrics', self2)))
      | _ \<Rightarrow> (Inl ValueError, self))"

subsection \<open>Notions used in the statements\<close>

text \<open>
  The iterator that a call of \<open>eval_model_on_split\<close> draws its batches from: the cached
  one, or else the one that the call builds.
\<close>

definition split_iterator ::
  "env \<Rightarrow> workload \<Rightarrow> string \<Rightarrow> RandomState \<Rightarrow> string \<Rightarrow> int \<Rightarrow> iterator" where
  "split_iterator env self split data_rng data_dir global_batch_size =
     (case eval_iters self split of
        None \<Rightarrow> build_input_queue env data_rng split data_dir global_batch_size True
      | Some it \<Rightarrow> it)"

text \<open>
  The number of batches that a call evaluates when nothing raises: the count of its
  loop, zero when the quotient raises.
\<close>

definition num_batches :: "int \<Rightarrow> int \<Rightarrow> nat" where
  "num_batches num_examples global_batch_size =
     (case py_int_truediv num_examples global_batch_size of
        Inl e \<Rightarrow> 0
      | Inr q \<Rightarrow> nat \<lceil>q\<rceil>)"

text \<open>
  The three values \<^verbatim>\<open>synced_metrics[k][0]\<close> that one batch adds to the totals, when
  the per-batch evaluation and the three lookups succeed.
\<close>

definition synced_heads ::
  "env \<Rightarrow> ParameterContainer list \<Rightarrow> RandomState list \<Rightarrow> batch list \<Rightarrow> (num \<times> num \<times> num) option" where
  "synced_heads env params eval_rngs batch =
     (case eval_model env params batch eval_rngs of
        Inl e \<Rightarrow> None
      | Inr synced_metrics \<Rightarrow>
          (case (map_of synced_metrics ''ssim'', map_of synced_metrics ''loss'',
                 map_of synced_metrics ''weight'') of
             (Some (x # _), Some (y # _), Some (z # _)) \<Rightarrow> Some (x, y, z)
           | _ \<Rightarrow> None))"

text \<open>
  The entries of batch element \<open>i\<close> of an array: with \<open>m\<close> the product of the non-batch
  extents, the \<open>m\<close> entries from position \<open>i * m\<close> on, which in row-major order are
  exactly those whose first index is \<open>i\<close>.
\<close>

definition example_entries :: "tensor \<Rightarrow> nat \<Rightarrow> num list" where
  "example_entries t i =
     take (prod_list (tl (shape t))) (drop (i * prod_list (tl (shape t))) (data t))"

text \<open>
  The mean of the absolute differences of two lists of entries, in the arithmetic of the
  arrays: the sum divided by the count.
\<close>

definition mean_abs_diff :: "num list \<Rightarrow> num list \<Rightarrow> num" where
  "mean_abs_diff os ls =
     fdiv (fsum (map2 (\<lambda>out lab. fabs (fsub out lab)) os ls)) (Fin (real (length os)))"


subsection \<open>A small instance of the collaborators\<close>

text \<open>
  Used to run the model on concrete inputs: the network returns its input, every
  example has structural similarity 1, and the input queue yields single-shard batches
  of one example whose entries are all equal to the position in the queue.
\<close>

definition const_tensor :: "nat list \<Rightarrow> real \<Rightarrow> tensor" where
  "const_tensor s c = \<lparr>shape = s, data = replicate (prod_list s) (Fin c)\<rparr>"

definition demo_batch :: "real \<Rightarrow> real \<Rightarrow> batch" where
  "demo_batch c w =
     [''inputs'' \<mapsto> const_tensor [1, 2] c, ''targets'' \<mapsto> const_tensor [1, 2] 1,
      ''mean'' \<mapsto> const_tensor [1] 0, ''std'' \<mapsto> const_tensor [1] 1,
      ''volume_max'' \<mapsto> const_tensor [1] 1, ''weights'' \<mapsto> const_tensor [1] w]"

definition demo_env :: env where
  "demo_env =
     \<lparr>unet_init = (\<lambda>rng x. [''params'' \<mapsto> Leaf (const_tensor [2] 1)]),
      unet_apply = (\<lambda>dropout_rate params x rng train. x),
      ssim = (\<lambda>targets outputs mean std volume_max. const_tensor (take 1 (shape targets)) 1),
      build_input_queue = (\<lambda>rng split data_dir global_batch_size repeat_final_dataset.
                             (\<lambda>i. [demo_batch (real i) 1])),
      prng_split = (\<lambda>rng n. map (\<lambda>i. i # rng) [0..<n]),
      local_device_count = 1,
      softmax = (\<lambda>z. z),
      sigmoid = (\<lambda>z. z)\<rparr>"

definition demo_workload :: workload where
  "demo_workload = \<lparr>param_shapes = None, eval_iters = Map.empty\<rparr>"

section \<open>Properties\<close>

subsection \<open>The output activation selector\<close>

text \<open>
  C4: \<open>output_activation_fn\<close> returns its logits unchanged for the loss kinds
  \<open>MEAN_SQUARED_ERROR\<close> and \<open>MEAN_ABSOLUTE_ERROR\<close>; it raises \<open>KeyError\<close> exactly when the
  loss kind is none of the four kinds of its table, and it raises nothing else.
\<close>

theorem output_activation_fn_identity_or_KeyError:
  "output_activation_fn env logits_batch MEAN_SQUARED_ERROR = Inr logits_batch
   \<and> output_activation_fn env logits_batch MEAN_ABSOLUTE_ERROR = Inr logits_batch
   \<and> ((output_activation_fn env logits_batch loss_type = Inl KeyError)
        = (loss_type \<notin> {SOFTMAX_CROSS_ENTROPY, SIGMOID_CROSS_ENTROPY,
                          MEAN_SQUARED_ERROR, MEAN_ABSOLUTE_ERROR}))
   \<and> (isl (output_activation_fn env logits_batch loss_type)
        = (output_activation_fn env logits_batch loss_type = Inl KeyError))"
  by (cases loss_type) (simp_all add: output_activation_fn_def activation_fn_def)

text \<open>The selector at the absolute-error kind and at a kind outside the table.\<close>

theorem output_activation_fn_witness:
  "output_activation_fn demo_env (const_tensor [2] 3) MEAN_ABSOLUTE_ERROR = Inr (const_tensor [2] 3)
   \<and> output_activation_fn demo_env (const_tensor [2] 3) (OTHER_LOSS ''CTC_LOSS'') = Inl KeyError
   \<and> isl (output_activation_fn demo_env (const_tensor [2] 3) (OTHER_LOSS ''CTC_LOSS''))"
  using output_activation_fn_identity_or_KeyError
          [where env = demo_env and logits_batch = "const_tensor [2] 3"
             and loss_type = "OTHER_LOSS ''CTC_LOSS''"]
  by simp

subsection \<open>The forward pass\<close>

text \<open>
  C5: every call of \<open>model_fn\<close> that returns gives a pair whose second component, the
  auxiliary model state, is \<open>None\<close>; its first component is the network applied to the
  batch's \<open>inputs\<close> with the train flag, which switches stochastic dropout on, set
  exactly when the mode is \<open>TRAIN\<close>: every other mode, \<open>EVAL\<close>, clears it. The only failure
  is the lookup of \<open>inputs\<close> in a batch that lacks it.
\<close>

theorem model_fn_null_state_and_train_flag:
  "(case model_fn env params batch model_state mode rng dropout_rate aux_dropout_rate
           update_batch_norm of
      Inl e \<Rightarrow> e = KeyError \<and> batch ''inputs'' = None
    | Inr (logits, new_model_state) \<Rightarrow>
        new_model_state = None
        \<and> (\<exists>inputs. batch ''inputs'' = Some inputs
              \<and> logits = unet_apply env dropout_rate params inputs rng (mode = TRAIN)))
   \<and> ((mode = TRAIN) = False \<longleftrightarrow> mode = EVAL)"
  by (cases mode) (simp_all add: model_fn_def split: option.split)

text \<open>The forward pass in evaluation mode on a batch of the small instance.\<close>

theorem model_fn_witness:
  "model_fn demo_env (Leaf (const_tensor [2] 1)) (demo_batch 3 1) None EVAL [0] (Some (Fin 0))
      None False = Inr (const_tensor [1, 2] 3, None)
   \<and> unet_apply demo_env (Some (Fin 0)) (Leaf (const_tensor [2] 1)) (const_tensor [1, 2] 3) [0]
        False = const_tensor [1, 2] 3"
  using model_fn_null_state_and_train_flag
          [where env = demo_env and params = "Leaf (const_tensor [2] 1)"
             and batch = "demo_batch 3 1" and model_state = None and mode = EVAL
             and rng = "[0]" and dropout_rate = "Some (Fin 0)" and aux_dropout_rate = None
             and update_batch_norm = False]
  by (simp add: model_fn_def demo_batch_def demo_env_def split: sum.splits prod.splits)

subsection \<open>Sums\<close>

lemma fadd_zero_left [simp]: "fadd (Fin 0) a = a"
  by (cases a) simp_all

subsection \<open>Rounding\<close>

lemma round_half_even_of_int [simp]: "round_half_even (of_int k) = k"
  by (simp add: round_half_even_def)

lemma round_half_even_error: "\<bar>of_int (round_half_even y) - y\<bar> \<le> 1 / 2"
proof -
  have "of_int \<lfloor>y\<rfloor> \<le> y" and "y < of_int \<lfloor>y\<rfloor> + 1"
    by linarith+
  then show ?thesis
    by (auto simp: round_half_even_def Let_def)
qed

lemma round_half_even_small:
  assumes "0 \<le> y" and "y < 1 / 2"
  shows "round_half_even y = 0"
proof -
  have "\<lfloor>y\<rfloor> = 0"
    using assms by (intro floor_unique) simp_all
  then show ?thesis
    using assms by (simp add: round_half_even_def)
qed

lemma binade_bounds:
  assumes "x \<noteq> 0"
  shows "2 powr of_int (binade x) \<le> \<bar>x\<bar>" and "\<bar>x\<bar> < 2 powr (of_int (binade x) + 1)"
proof -
  have "0 < \<bar>x\<bar>"
    using assms by simp
  then have "2 powr of_int (binade x) \<le> \<bar>x\<bar> \<and> \<bar>x\<bar> < 2 powr (of_int (binade x) + 1)"
    using floor_log_eq_powr_iff [of "\<bar>x\<bar>" 2 "binade x"] by (simp add: binade_def)
  then show "2 powr of_int (binade x) \<le> \<bar>x\<bar>" and "\<bar>x\<bar> < 2 powr (of_int (binade x) + 1)"
    by simp_all
qed


lemma ulp_pos: "0 < ulp p emin x"
  by (simp add: ulp_def)

lemma round_float_error: "\<bar>round_float p emin x - x\<bar> \<le> ulp p emin x / 2"
proof (cases "x = 0")
  case True
  then show ?thesis
    using ulp_pos [of p emin x] by (simp add: round_float_def)
next
  case False
  let ?u = "ulp p emin x"
  have "\<bar>of_int (round_half_even (x / ?u)) - x / ?u\<bar> \<le> 1 / 2"
    by (rule round_half_even_error)
  then have "\<bar>of_int (round_half_even (x / ?u)) - x / ?u\<bar> * ?u \<le> 1 / 2 * ?u"
    using ulp_pos [of p emin x] by (intro mult_right_mono) simp_all
  moreover have "\<bar>of_int (round_half_even (x / ?u)) - x / ?u\<bar> * ?u
                 = \<bar>of_int (round_half_even (x / ?u)) * ?u - x\<bar>"
  proof -
    have "\<bar>of_int (round_half_even (x / ?u)) - x / ?u\<bar> * ?u
          = \<bar>(of_int (round_half_even (x / ?u)) - x / ?u) * ?u\<bar>"
      using ulp_pos [of p emin x] by (simp add: abs_mult)
    also have "(of_int (round_half_even (x / ?u)) - x / ?u) * ?u
               = of_int (round_half_even (x / ?u)) * ?u - x"
      using ulp_pos [of p emin x] by (simp add: left_diff_distrib)
    finally show ?thesis .
  qed
  ultimately show ?thesis
    using False by (simp add: round_float_def)
qed

text \<open>A value \<open>m * 2 ^ t\<close> with fewer than \<open>p\<close> bits in \<open>m\<close> and \<open>t\<close> in range is not changed.\<close>

lemma round_float_exact:
  assumes "x = of_int m * 2 powr of_int t" and "\<bar>m\<bar> < 2 ^ nat p" and "0 < p"
      and "emin - p + 1 \<le> t"
  shows "round_float p emin x = x"
proof (cases "x = 0")
  case True
  then show ?thesis by (simp add: round_float_def)
next
  case False
  let ?E = "max (binade x) emin"
  have "\<bar>x\<bar> = of_int \<bar>m\<bar> * 2 powr of_int t"
    using assms(1) by (simp add: abs_mult)
  also have "\<dots> < 2 ^ nat p * 2 powr of_int t"
  proof -
    have "real_of_int \<bar>m\<bar> < real_of_int (2 ^ nat p)"
      using assms(2) by (simp only: of_int_less_iff)
    then show ?thesis
      by simp
  qed
  also have "\<dots> = 2 powr (of_int p + of_int t)"
    using assms(3) by (simp add: powr_add powr_realpow [symmetric])
  finally have "\<bar>x\<bar> < 2 powr (of_int p + of_int t)" .
  moreover have "2 powr of_int (binade x) \<le> \<bar>x\<bar>"
    using False by (rule binade_bounds)
  ultimately have "2 powr of_int (binade x) < (2::real) powr (of_int p + of_int t)"
    by linarith
  then have "real_of_int (binade x) < of_int p + of_int t"
    by simp
  then have "binade x < p + t"
    by linarith
  then have s: "0 \<le> t - (?E - p + 1)"
    using assms(4) by simp
  define s where "s = nat (t - (?E - p + 1))"
  have t: "of_int t = of_int (?E - p + 1) + real s"
    using s by (simp add: s_def)
  have "x / ulp p emin x = of_int m * (2 powr of_int t / 2 powr of_int (?E - p + 1))"
    using assms(1) by (simp add: ulp_def)
  also have "2 powr of_int t / 2 powr of_int (?E - p + 1) = (2::real) powr real s"
    unfolding t by (simp add: powr_add)
  also have "\<dots> = 2 ^ s"
    by (simp add: powr_realpow)
  finally have "x / ulp p emin x = of_int (m * 2 ^ s)"
    by simp
  then have "of_int (round_half_even (x / ulp p emin x)) * ulp p emin x
             = x / ulp p emin x * ulp p emin x"
    by (simp only: round_half_even_of_int)
  also have "\<dots> = x"
    using ulp_pos [of p emin x] by simp
  finally show ?thesis
    using False by (simp add: round_float_def)
qed


lemma round_float_underflow:
  assumes "0 \<le> x" and "x < 2 powr of_int (emin + 1)"
      and "x / 2 powr of_int (emin - p + 1) < 1 / 2"
  shows "round_float p emin x = 0"
proof (cases "x = 0")
  case True
  then show ?thesis by (simp add: round_float_def)
next
  case False
  have "2 powr of_int (binade x) \<le> \<bar>x\<bar>"
    using False by (rule binade_bounds)
  moreover have "\<bar>x\<bar> < 2 powr of_int (emin + 1)"
    using assms(1,2) by simp
  ultimately have "2 powr of_int (binade x) < (2::real) powr of_int (emin + 1)"
    by (rule le_less_trans)
  then have "real_of_int (binade x) < of_int (emin + 1)"
    by simp
  then have "binade x \<le> emin"
    by linarith
  then have u: "ulp p emin x = 2 powr of_int (emin - p + 1)"
    by (simp add: ulp_def max_def)
  have "0 \<le> x / 2 powr of_int (emin - p + 1)"
    using assms(1) by simp
  then have "round_half_even (x / 2 powr of_int (emin - p + 1)) = 0"
    using assms(3) by (rule round_half_even_small)
  then show ?thesis
    using False by (simp add: round_float_def u)
qed

subsection \<open>The quotient of two Python integers\<close>

lemma py_int_truediv_underflow: "py_int_truediv 1 (10 ^ 400) = Inr 0"
proof -
  have "round_float 53 (- 1022) (1 / 10 ^ 400) = 0"
    by (rule round_float_underflow) (simp_all add: powr_neg_numeral)
  then show ?thesis
    by (simp add: py_int_truediv_def)
qed

lemma py_int_truediv_exact:
  assumes "b \<noteq> 0" and "real_of_int a / real_of_int b = of_int m * 2 powr of_int t"
      and "\<bar>m\<bar> < 2 ^ 53" and "- 1074 \<le> t" and "t \<le> 970"
  shows "py_int_truediv a b = Inr (real_of_int a / real_of_int b)"
proof -
  let ?x = "real_of_int a / real_of_int b"
  have r: "round_float 53 (- 1022) ?x = ?x"
    using assms(2) by (rule round_float_exact) (use assms(3,4) in simp_all)
  have "\<bar>?x\<bar> = of_int \<bar>m\<bar> * 2 powr of_int t"
    unfolding assms(2) by (simp add: abs_mult)
  also have "\<dots> \<le> 2 ^ 53 * 2 powr of_int t"
  proof -
    have "real_of_int \<bar>m\<bar> \<le> real_of_int (2 ^ 53)"
      using assms(3) by (simp only: of_int_le_iff)
    then show ?thesis
      by (intro mult_right_mono) simp_all
  qed
  also have "\<dots> \<le> 2 ^ 53 * 2 powr 970"
  proof -
    have "(2::real) powr of_int t \<le> 2 powr 970"
      using assms(5) by (intro powr_mono) simp_all
    then show ?thesis
      by (intro mult_left_mono) simp_all
  qed
  also have "\<dots> < 2 ^ 1024"
    by simp
  finally show ?thesis
    using assms(1) by (simp add: py_int_truediv_def r)
qed

text \<open>
  For positive counts below \<open>2 ^ 53\<close> the float quotient has the ceiling of the exact
  quotient: an integer quotient is a double, and any other quotient is farther from
  the integers around it than the rounding moves it.
\<close>

lemma py_int_truediv_ceiling:
  assumes n: "0 < n" "n < 2 ^ 53" and g: "0 < g" "g < 2 ^ 53"
  shows "\<exists>q. py_int_truediv n g = Inr q
             \<and> \<lceil>q\<rceil> = \<lceil>real_of_int n / real_of_int g\<rceil>"
proof -
  let ?x = "real_of_int n / real_of_int g"
  let ?e = "binade ?x"
  let ?r = "round_float 53 (- 1022) ?x"
  have xpos: "0 < ?x"
    using n(1) g(1) by simp
  have gpos: "0 < real_of_int g"
    using g(1) by simp
  have gx: "real_of_int g * ?x = real_of_int n"
    using gpos by simp
  have xne: "?x \<noteq> 0" and absx: "\<bar>?x\<bar> = ?x"
    using xpos by linarith+
  have lo: "2 powr of_int ?e \<le> ?x" and hi: "?x < 2 powr (of_int ?e + 1)"
    using binade_bounds [OF xne] by (simp_all only: absx)
  have g53: "real_of_int g < 2 ^ 53" and n53: "real_of_int n < 2 ^ 53"
    using g(2) n(2) by (simp_all only: of_int_less_iff [symmetric, where ?'a = real] of_int_power
        of_int_numeral)
  have inv_g: "1 / 2 ^ 53 < 1 / real_of_int g"
    using g53 gpos by (simp add: field_simps)
  have x_ge: "1 / real_of_int g \<le> ?x"
  proof -
    have "1 \<le> real_of_int n"
      using n(1) by simp
    then show ?thesis
      using gpos by (simp add: field_simps)
  qed
  have "(2::real) powr (- 53) < 2 powr (of_int ?e + 1)"
  proof -
    have "(2::real) powr (- 53) = 1 / 2 ^ 53"
      by (simp add: powr_neg_numeral)
    then show ?thesis
      using inv_g x_ge hi by linarith
  qed
  then have "- 53 < real_of_int ?e + 1"
    by simp
  then have e_lo: "- 53 \<le> ?e"
    by linarith
  then have E: "max ?e (- 1022) = ?e"
    by simp
  have u: "ulp 53 (- 1022) ?x = 2 powr of_int (?e - 52)"
    by (simp add: ulp_def E)
  have half_u: "ulp 53 (- 1022) ?x / 2 = 2 powr of_int (?e - 53)"
  proof -
    have "(2::real) powr of_int (?e - 52) = 2 powr (of_int (?e - 53) + 1)"
      by simp
    also have "\<dots> = 2 powr of_int (?e - 53) * 2"
      by (simp only: powr_add) simp
    finally show ?thesis
      by (simp add: u)
  qed
  have err: "\<bar>?r - ?x\<bar> \<le> 2 powr of_int (?e - 53)"
    using round_float_error [of 53 "- 1022" ?x] by (simp only: half_u)
  have small: "2 powr of_int (?e - 53) < 1 / real_of_int g"
  proof -
    define P :: real where "P = 2 powr of_int ?e"
    define c :: real where "c = 2 ^ 53"
    have cpos: "0 < c"
      by (simp add: c_def)
    have "real_of_int g * P \<le> real_of_int g * ?x"
      unfolding P_def using lo gpos by (intro mult_left_mono) simp_all
    also have "\<dots> < c"
      unfolding c_def using n53 by (simp only: gx)
    finally have "real_of_int g * P < c" .
    then have "P / c < 1 / real_of_int g"
      using gpos cpos by (simp add: field_simps)
    moreover have "(2::real) powr of_int (?e - 53) = P / c"
      unfolding P_def c_def by (simp add: powr_diff)
    ultimately show ?thesis
      by simp
  qed
  define K where "K = \<lceil>?x\<rceil>"
  have K_le: "K \<le> n"
  proof -
    have "1 \<le> real_of_int g"
      using g(1) by simp
    then have "?x \<le> real_of_int n"
      using n(1) gpos by (simp add: field_simps mult_le_cancel_left1)
    then show ?thesis
      by (simp add: K_def ceiling_le_iff)
  qed
  have K_ge: "?x \<le> of_int K" and K_gt: "of_int K - 1 < ?x"
    unfolding K_def by linarith+
  have round_ceiling: "\<lceil>?r\<rceil> = K \<and> \<bar>?r\<bar> \<le> of_int K"
  proof (cases "?x = of_int K")
    case True
    have Kpos: "0 < K"
    proof -
      have "0 < real_of_int K"
        using True xpos by linarith
      then show ?thesis
        by simp
    qed
    have x0: "?x = of_int K * 2 powr of_int 0"
      using True by simp
    have "\<bar>K\<bar> < 2 ^ nat 53"
      using K_le n(2) Kpos by simp
    with x0 have "?r = ?x"
      by (rule round_float_exact) simp_all
    then have "?r = of_int K"
      using True by linarith
    then show ?thesis
      using Kpos by simp
  next
    case False
    have x_lt: "?x < of_int K"
      using False K_ge by linarith
    define F where "F = K - 1"
    have F_lt: "of_int F < ?x"
      using K_gt by (simp add: F_def)
    have "real_of_int F * real_of_int g < ?x * real_of_int g"
      using F_lt gpos by (intro mult_strict_right_mono)
    then have "real_of_int (F * g) < real_of_int n"
      using gpos by simp
    then have "F * g < n"
      by (simp only: of_int_less_iff)
    then have "F * g + 1 \<le> n"
      by linarith
    then have "real_of_int (F * g + 1) \<le> real_of_int n"
      by (simp only: of_int_le_iff)
    then have "real_of_int (F * g + 1) / real_of_int g \<le> ?x"
      using gpos by (intro divide_right_mono) simp_all
    moreover have "real_of_int (F * g + 1) / real_of_int g = of_int F + 1 / real_of_int g"
      using gpos by (simp add: add_divide_distrib)
    ultimately have below: "of_int F + 1 / real_of_int g \<le> ?x"
      by simp
    have "?x * real_of_int g < real_of_int K * real_of_int g"
      using x_lt gpos by (intro mult_strict_right_mono)
    then have "real_of_int n < real_of_int (K * g)"
      using gpos by simp
    then have "n < K * g"
      by (simp only: of_int_less_iff)
    then have "n + 1 \<le> K * g"
      by linarith
    then have "real_of_int (n + 1) \<le> real_of_int (K * g)"
      by (simp only: of_int_le_iff)
    then have "real_of_int (n + 1) / real_of_int g \<le> real_of_int (K * g) / real_of_int g"
      using gpos by (intro divide_right_mono) simp_all
    moreover have "real_of_int (n + 1) / real_of_int g = ?x + 1 / real_of_int g"
      by (simp add: add_divide_distrib)
    moreover have "real_of_int (K * g) / real_of_int g = of_int K"
      using gpos by simp
    ultimately have above: "?x + 1 / real_of_int g \<le> of_int K"
      by simp
    have r_gt: "of_int F < ?r" and r_lt: "?r < of_int K"
      using err small below above by linarith+
    have "0 \<le> real_of_int F"
    proof -
      have "0 < real_of_int K"
        using xpos K_ge by linarith
      then have "0 < K"
        by simp
      then show ?thesis
        by (simp add: F_def)
    qed
    then have "0 \<le> ?r"
      using r_gt by linarith
    moreover have "of_int K - 1 < ?r"
      using r_gt by (simp add: F_def)
    ultimately show ?thesis
      using r_lt by (simp add: ceiling_eq_iff)
  qed
  have "\<bar>?r\<bar> < 2 ^ 1024"
  proof -
    have "real_of_int K \<le> real_of_int n"
      using K_le by (simp only: of_int_le_iff)
    then have "\<bar>?r\<bar> \<le> real_of_int n"
      using round_ceiling by linarith
    also have "\<dots> < 2 ^ 53"
      by (rule n53)
    also have "\<dots> < (2::real) ^ 1024"
      by simp
    finally show ?thesis .
  qed
  then show ?thesis
    using g(1) round_ceiling by (simp add: py_int_truediv_def Let_def K_def)
qed

subsection \<open>Float32 values\<close>

lemma float32_exact:
  assumes "x = of_int m * 2 powr of_int t" and "\<bar>m\<bar> < 2 ^ 24" and "- 149 \<le> t" and "t \<le> 104"
  shows "float32 x = Fin x"
proof -
  have r: "round_float 24 (- 126) x = x"
    using assms(1) by (rule round_float_exact) (use assms(2,3) in simp_all)
  have "\<bar>x\<bar> = of_int \<bar>m\<bar> * 2 powr of_int t"
    unfolding assms(1) by (simp add: abs_mult)
  also have "\<dots> < 2 ^ 24 * 2 powr of_int t"
  proof -
    have "real_of_int \<bar>m\<bar> < real_of_int (2 ^ 24)"
      using assms(2) by (simp only: of_int_less_iff)
    then show ?thesis
      by simp
  qed
  also have "\<dots> \<le> 2 ^ 24 * 2 powr 104"
  proof -
    have "(2::real) powr of_int t \<le> 2 powr 104"
      using assms(4) by (intro powr_mono) simp_all
    then show ?thesis
      by (intro mult_left_mono) simp_all
  qed
  also have "\<dots> = 2 ^ 128"
    by simp
  finally have "\<bar>x\<bar> < 2 ^ 128" .
  then have "\<not> 2 ^ 128 \<le> x" and "\<not> x \<le> - (2 ^ 128)"
    by linarith+
  then show ?thesis
    by (simp add: float32_def r)
qed

lemma float32_of_int:
  assumes "\<bar>m\<bar> < 2 ^ 24"
  shows "float32 (of_int m) = Fin (of_int m)"
  by (rule float32_exact [where m = m and t = 0]) (use assms in simp_all)

lemma float32_zero [simp]: "float32 0 = Fin 0"
  using float32_of_int [of 0] by simp

lemma float32_halves:
  assumes "\<bar>m\<bar> < 2 ^ 24"
  shows "float32 (of_int m / 2) = Fin (of_int m / 2)"
  by (rule float32_exact [where m = m and t = "- 1"]) (use assms in \<open>simp_all add: powr_minus\<close>)

lemma float32_quarters:
  assumes "\<bar>m\<bar> < 2 ^ 24"
  shows "float32 (of_int m / 4) = Fin (of_int m / 4)"
proof (rule float32_exact [where m = m and t = "- 2"])
  have "(2::real) powr (- 2) = 1 / 4"
    by (simp add: powr_neg_numeral)
  then show "real_of_int m / 4 = real_of_int m * 2 powr real_of_int (- 2)"
    by simp
qed (use assms in simp_all)

lemma float32_doubles:
  assumes "\<bar>m\<bar> < 2 ^ 24"
  shows "float32 (of_int m * 2) = Fin (of_int m * 2)"
  by (rule float32_exact [where m = m and t = 1]) (use assms in simp_all)


lemma f32_div_zero_not_finite: "\<not> is_finite (f32_div a (Fin 0))"
  by (cases a) (simp_all add: f32_div_def)

lemma f32_sum_zeros: "f32_sum (map (\<lambda>i. Fin 0) xs) = Fin 0"
  unfolding f32_sum_def by (induction xs) (simp_all add: f32_add_def)

subsection \<open>The evaluation loop\<close>

lemma foldl_py_add_array:
  "foldl py_add_array a xs = (if xs = [] then a else JaxArray (foldl f32_add (py_num a) xs))"
proof (induction xs arbitrary: a)
  case Nil
  then show ?case by simp
next
  case (Cons x xs)
  then show ?case by (simp add: py_add_array_def)
qed


lemma synced_heads_Some:
  assumes "synced_heads env params rngs batch = Some (x, y, z)"
  shows "\<exists>synced. eval_model env params batch rngs = Inr synced
           \<and> accumulate [(''ssim'', a), (''loss'', b), (''weight'', c)] synced
               = Inr [(''ssim'', py_add_array a x), (''loss'', py_add_array b y),
                      (''weight'', py_add_array c z)]"
  using assms
  by (auto simp: synced_heads_def split: sum.splits option.splits list.splits)


lemma eval_loop_ok:
  assumes "eval_iters self split = Some it"
      and "\<forall>i<n. synced_heads env params rngs (it i) = Some (s i, l i, w i)"
  shows "eval_loop env split params rngs n [(''ssim'', a), (''loss'', b), (''weight'', c)] self
         = (Inr [(''ssim'', foldl py_add_array a (map s [0..<n])),
                 (''loss'', foldl py_add_array b (map l [0..<n])),
                 (''weight'', foldl py_add_array c (map w [0..<n]))],
            self\<lparr>eval_iters := (eval_iters self)(split \<mapsto> (\<lambda>i. it (n + i)))\<rparr>)"
  using assms
proof (induction n arbitrary: self it s l w a b c)
  case 0
  have "(eval_iters self)(split \<mapsto> it) = eval_iters self"
    using "0.prems"(1) by (rule map_upd_triv)
  then show ?case by simp
next
  case (Suc n)
  let ?it' = "\<lambda>i. it (Suc i)"
  let ?self' = "self\<lparr>eval_iters := (eval_iters self)(split \<mapsto> ?it')\<rparr>"
  from Suc.prems(2) have h0: "synced_heads env params rngs (it 0) = Some (s 0, l 0, w 0)"
    by simp
  from synced_heads_Some [OF h0, of a b c] obtain synced where
    ev: "eval_model env params (it 0) rngs = Inr synced" and
    acc: "accumulate [(''ssim'', a), (''loss'', b), (''weight'', c)] synced
          = Inr [(''ssim'', py_add_array a (s 0)), (''loss'', py_add_array b (l 0)),
                 (''weight'', py_add_array c (w 0))]"
    by blast
  have c': "eval_iters ?self' split = Some ?it'"
    by simp
  have r': "\<forall>i<n. synced_heads env params rngs (?it' i) = Some (s (Suc i), l (Suc i), w (Suc i))"
    using Suc.prems(2) by simp
  note ih = Suc.IH [OF c' r', of "py_add_array a (s 0)" "py_add_array b (l 0)"
                      "py_add_array c (w 0)"]
  have step: "eval_loop env split params rngs (Suc n)
                [(''ssim'', a), (''loss'', b), (''weight'', c)] self
        = eval_loop env split params rngs n
            [(''ssim'', py_add_array a (s 0)), (''loss'', py_add_array b (l 0)),
             (''weight'', py_add_array c (w 0))] ?self'"
    using Suc.prems(1) ev acc by (simp add: next_batch_def del: accumulate.simps)
  have st: "?self'\<lparr>eval_iters := (eval_iters ?self')(split \<mapsto> (\<lambda>i. ?it' (n + i)))\<rparr>
            = self\<lparr>eval_iters := (eval_iters self)(split \<mapsto> (\<lambda>i. it (Suc n + i)))\<rparr>"
    by simp
  have m: "foldl py_add_array x (map g [0..<Suc n])
           = foldl py_add_array (py_add_array x (g 0)) (map (\<lambda>i. g (Suc i)) [0..<n])" for x g
    by (simp only: map_upt_Suc foldl_Cons)
  show ?case
    by (simp only: step ih st m)
qed

lemma synced_heads_explicit:
  assumes "eval_model env params batch rngs
           = Inr [(''ssim'', x # xs), (''loss'', y # ys), (''weight'', z # zs)]"
  shows "synced_heads env params rngs batch = Some (x, y, z)"
  using assms by (simp add: synced_heads_def)

lemma eval_model_on_split_unfold:
  assumes "prng_split env rng 2 = [data_rng, model_rng]"
      and "py_int_truediv num_examples global_batch_size = Inr q"
  shows "eval_model_on_split env self split num_examples global_batch_size params model_state
           rng data_dir global_step
         = (case eval_loop env split params
                   (prng_split env model_rng (local_device_count env))
                   (nat \<lceil>q\<rceil>)
                   [(''ssim'', PyFloat (Fin 0)), (''loss'', PyFloat (Fin 0)),
                    (''weight'', PyFloat (Fin 0))]
                   (self\<lparr>eval_iters := (eval_iters self)
                      (split \<mapsto> split_iterator env self split data_rng data_dir
                                  global_batch_size)\<rparr>) of
              (Inl e, self2) \<Rightarrow> (Inl e, self2)
            | (Inr total_metrics', self2) \<Rightarrow> (pop_and_normalize total_metrics', self2))"
proof (cases "eval_iters self split")
  case None
  then show ?thesis
    using assms by (simp add: eval_model_on_split_def split_iterator_def Let_def)
next
  case (Some it)
  then have "(eval_iters self)(split \<mapsto> it) = eval_iters self"
    by (rule map_upd_triv)
  then show ?thesis
    using assms Some by (simp add: eval_model_on_split_def split_iterator_def Let_def)
qed

lemma pop_and_normalize_arrays:
  "pop_and_normalize [(''ssim'', JaxArray a), (''loss'', JaxArray b), (''weight'', JaxArray c)]
   = Inr [(''ssim'', f32_div a c), (''loss'', f32_div b c)]"
  by (simp add: pop_and_normalize_def normalize_value_def)

lemma pop_and_normalize_floats:
  "pop_and_normalize [(''ssim'', PyFloat a), (''loss'', b), (''weight'', c)] = Inl AttributeError"
  by (simp add: pop_and_normalize_def normalize_value_def)

lemma eval_model_on_split_ok:
  assumes split2: "prng_split env rng 2 = [data_rng, model_rng]"
      and quot: "py_int_truediv num_examples global_batch_size = Inr q"
      and it: "it = split_iterator env self split data_rng data_dir global_batch_size"
      and nb: "nb = nat \<lceil>q\<rceil>"
      and pos: "0 < nb"
      and ok: "\<forall>i<nb. synced_heads env params
                  (prng_split env model_rng (local_device_count env)) (it i)
                = Some (s i, l i, w i)"
  shows "eval_model_on_split env self split num_examples global_batch_size params model_state
           rng data_dir global_step
         = (Inr [(''ssim'', f32_div (f32_sum (map s [0..<nb])) (f32_sum (map w [0..<nb]))),
                 (''loss'', f32_div (f32_sum (map l [0..<nb])) (f32_sum (map w [0..<nb])))],
            self\<lparr>eval_iters := (eval_iters self)(split \<mapsto> (\<lambda>i. it (nb + i)))\<rparr>)"
proof -
  let ?self1 = "self\<lparr>eval_iters := (eval_iters self)(split \<mapsto> it)\<rparr>"
  have c: "eval_iters ?self1 split = Some it"
    by simp
  have ne: "map f [0..<nb] \<noteq> []" for f :: "nat \<Rightarrow> num"
    using pos by simp
  have tot: "foldl py_add_array (PyFloat (Fin 0)) (map f [0..<nb])
             = JaxArray (f32_sum (map f [0..<nb]))"
    for f :: "nat \<Rightarrow> num"
    using ne [of f] by (simp only: foldl_py_add_array f32_sum_def py_num.simps if_False)
  have st: "?self1\<lparr>eval_iters := (eval_iters ?self1)(split \<mapsto> (\<lambda>i. it (nb + i)))\<rparr>
            = self\<lparr>eval_iters := (eval_iters self)(split \<mapsto> (\<lambda>i. it (nb + i)))\<rparr>"
    by simp
  note loop = eval_loop_ok [OF c ok, of "PyFloat (Fin 0)" "PyFloat (Fin 0)" "PyFloat (Fin 0)"]
  show ?thesis
    unfolding eval_model_on_split_unfold [OF split2 quot] it [symmetric] nb [symmetric]
    by (simp only: loop tot st prod.case sum.case pop_and_normalize_arrays)
qed

text \<open>Without a batch the totals are still the Python floats, which have no \<^verbatim>\<open>.item()\<close>.\<close>

lemma eval_model_on_split_no_batch:
  assumes "prng_split env rng 2 = [data_rng, model_rng]"
      and "py_int_truediv num_examples global_batch_size = Inr q"
      and "nat \<lceil>q\<rceil> = 0"
  shows "eval_model_on_split env self split num_examples global_batch_size params model_state
           rng data_dir global_step
         = (Inl AttributeError,
            self\<lparr>eval_iters := (eval_iters self)
               (split \<mapsto> split_iterator env self split data_rng data_dir
                           global_batch_size)\<rparr>)"
  unfolding eval_model_on_split_unfold [OF assms(1,2)] assms(3)
  by (simp add: pop_and_normalize_floats)


lemma eval_loop_other_splits:
  "other \<noteq> split \<Longrightarrow>
   eval_iters (snd (eval_loop env split params rngs n tot self)) other = eval_iters self other"
proof (induction n arbitrary: tot self)
  case 0
  then show ?case by simp
next
  case (Suc n)
  then show ?case
    by (simp add: next_batch_def Let_def split: option.split sum.split del: accumulate.simps)
qed

lemma eval_loop_param_shapes:
  "param_shapes (snd (eval_loop env split params rngs n tot self)) = param_shapes self"
proof (induction n arbitrary: tot self)
  case 0
  then show ?case by simp
next
  case (Suc n)
  then show ?case
    by (simp add: next_batch_def Let_def split: option.split sum.split del: accumulate.simps)
qed

lemma eval_loop_entry:
  assumes "eval_iters self split = Some it"
  shows "\<exists>k\<le>n. eval_iters (snd (eval_loop env split params rngs n tot self)) split
                 = Some (\<lambda>i. it (k + i))"
  using assms
proof (induction n arbitrary: tot self it)
  case 0
  then show ?case by simp
next
  case (Suc n)
  let ?it' = "\<lambda>i. it (Suc i)"
  let ?self' = "self\<lparr>eval_iters := (eval_iters self)(split \<mapsto> ?it')\<rparr>"
  have c': "eval_iters ?self' split = Some ?it'"
    by simp
  show ?case
  proof (cases "eval_model env params (it 0) rngs")
    case (Inl e)
    then have "eval_iters (snd (eval_loop env split params rngs (Suc n) tot self)) split
               = Some (\<lambda>i. it (1 + i))"
      using Suc.prems by (simp add: next_batch_def)
    then show ?thesis by (intro exI [of _ 1]) simp
  next
    case (Inr synced)
    show ?thesis
    proof (cases "accumulate tot synced")
      case (Inl e)
      then have "eval_iters (snd (eval_loop env split params rngs (Suc n) tot self)) split
                 = Some (\<lambda>i. it (1 + i))"
        using Suc.prems Inr by (simp add: next_batch_def)
      then show ?thesis by (intro exI [of _ 1]) simp
    next
      case (Inr tot')
      from Suc.IH [OF c', of tot'] obtain k where
        k: "k \<le> n" "eval_iters (snd (eval_loop env split params rngs n tot' ?self')) split
                     = Some (\<lambda>i. it (Suc (k + i)))"
        by auto
      have "eval_loop env split params rngs (Suc n) tot self
            = eval_loop env split params rngs n tot' ?self'"
        using Suc.prems \<open>eval_model env params (it 0) rngs = Inr synced\<close> Inr
        by (simp add: next_batch_def)
      then show ?thesis
        using k by (intro exI [of _ "Suc k"]) simp
    qed
  qed
qed

lemma eval_model_local_builder_irrelevant:
  "eval_model_local (env\<lparr>build_input_queue := q\<rparr>) = eval_model_local env"
  by (intro ext)
     (simp add: eval_model_local_def model_fn_def Let_def
           cong: option.case_cong sum.case_cong prod.case_cong)

lemma eval_model_builder_irrelevant:
  "eval_model (env\<lparr>build_input_queue := q\<rparr>) params batch rngs = eval_model env params batch rngs"
  by (simp add: eval_model_def eval_model_local_builder_irrelevant)

lemma eval_loop_builder_irrelevant:
  "eval_loop (env\<lparr>build_input_queue := q\<rparr>) split params rngs n tot self
   = eval_loop env split params rngs n tot self"
proof (induction n arbitrary: tot self)
  case 0
  then show ?case by simp
next
  case (Suc n)
  then show ?case
    by (simp add: eval_model_builder_irrelevant Let_def del: accumulate.simps
             cong: option.case_cong sum.case_cong prod.case_cong)
qed

subsection \<open>The small instance, evaluated\<close>

lemma upt_2: "[0..<2] = [0, Suc 0]"
  by (simp add: numeral_2_eq_2)


lemma demo_loss_fn:
  "loss_fn (const_tensor [1, 2] 1) (const_tensor [1, 2] c) = Inr \<lparr>shape = [1], data = [Fin \<bar>c - 1\<bar>]\<rparr>"
  by (simp add: loss_fn_def jnp_subtract_def broadcast_shapes_def const_tensor_def broadcast_to_def
      broadcast_index_def mean_axes_from_1_def jnp_abs_def ndim_def fsum_def fsub_def upt_2 Let_def)

lemma demo_local:
  "eval_model_local demo_env p (demo_batch c w) r = Inr (Fin 1, Fin \<bar>c - 1\<bar>, Fin w)"
proof -
  have m: "model_fn demo_env p (demo_batch c w) None EVAL r (Some (Fin 0)) None False
           = Inr (const_tensor [1, 2] c, None)"
    by (simp add: model_fn_def demo_batch_def demo_env_def)
  have s: "jnp_sum (ssim demo_env (const_tensor [1, 2] 1) (const_tensor [1, 2] c) a b d) = Fin 1"
    for a b d
    by (simp add: demo_env_def const_tensor_def jnp_sum_def fsum_def)
  have l: "jnp_sum \<lparr>shape = [1], data = [Fin \<bar>c - 1\<bar>]\<rparr> = Fin \<bar>c - 1\<bar>"
    by (simp add: jnp_sum_def fsum_def)
  have ws: "jnp_sum (const_tensor [1] w) = Fin w"
    by (simp add: const_tensor_def jnp_sum_def fsum_def)
  show ?thesis
    unfolding eval_model_local_def m
    by (simp add: demo_batch_def demo_loss_fn s l ws del: One_nat_def)
qed

lemma demo_eval_model:
  "eval_model demo_env [p] [demo_batch c w] [r]
   = Inr [(''ssim'', [Fin 1]), (''loss'', [Fin \<bar>c - 1\<bar>]), (''weight'', [Fin w])]"
  by (simp add: eval_model_def demo_local psum_def fsum_def) (simp add: demo_env_def)


lemma demo_prng_split_2: "prng_split demo_env rng 2 = [0 # rng, 1 # rng]"
  by (simp add: demo_env_def upt_2)

lemma demo_prng_split_devices:
  "prng_split demo_env rng (local_device_count demo_env) = [0 # rng]"
  by (simp add: demo_env_def)

lemma demo_truediv_3_2: "py_int_truediv 3 2 = Inr (3 / 2)"
  using py_int_truediv_exact [of 2 3 3 "- 1"] by (simp add: powr_minus)


lemma demo_ceiling_3_2: "nat \<lceil>(3::real) / 2\<rceil> = 2"
proof -
  have "\<lceil>(3::real) / 2\<rceil> = 2"
    by (simp add: ceiling_eq_iff)
  then show ?thesis by simp
qed

lemma demo_num_batches: "num_batches 3 2 = 2"
  by (simp add: num_batches_def demo_truediv_3_2 demo_ceiling_3_2)

lemma demo_float32_ints:
  "float32 1 = Fin 1" "float32 2 = Fin 2" "float32 3 = Fin 3" "float32 4 = Fin 4"
  "float32 16777216 = Fin 16777216" "float32 16777218 = Fin 16777218"
  "float32 4194304 = Fin 4194304"
  using float32_of_int [of 1] float32_of_int [of 2] float32_of_int [of 3] float32_of_int [of 4]
    float32_doubles [of 8388608] float32_doubles [of 8388609] float32_of_int [of 4194304]
  by simp_all

lemma demo_float32_fractions:
  "float32 (1 / 2) = Fin (1 / 2)" "float32 (3 / 4) = Fin (3 / 4)"
  "float32 (8388609 / 2) = Fin (8388609 / 2)"
  using float32_halves [of 1] float32_quarters [of 3] float32_halves [of 8388609]
  by simp_all

subsection \<open>The split-level evaluator\<close>

text \<open>
  C1 as stated fails where the float quotient of line 134 leaves the exact one: for
  \<open>num_examples = 1\<close> and \<open>global_batch_size = 10 ^ 400\<close>, both positive, the ceiling of
  the exact quotient is 1, but the float quotient is \<open>0.0\<close>. The call pulls no batch from
  the cached iterator, which it leaves as it was, and raises \<open>AttributeError\<close> at
  \<^verbatim>\<open>v.item()\<close> instead of returning a mapping.
\<close>

theorem eval_model_on_split_underflow_counterexample:
  "nat \<lceil>real_of_int 1 / real_of_int (10 ^ 400)\<rceil> = 1
   \<and> eval_model_on_split demo_env
         \<lparr>param_shapes = None, eval_iters = [''validation'' \<mapsto> (\<lambda>i. [demo_batch 1 1])]\<rparr>
         ''validation'' 1 (10 ^ 400) [Leaf (const_tensor [2] 1)] None [7] ''data'' 0
       = (Inl AttributeError,
          \<lparr>param_shapes = None, eval_iters = [''validation'' \<mapsto> (\<lambda>i. [demo_batch 1 1])]\<rparr>)"
proof -
  have "\<lceil>(1::real) / 10 ^ 400\<rceil> = 1"
    by (simp add: ceiling_eq_iff)
  then have "nat \<lceil>real_of_int 1 / real_of_int (10 ^ 400)\<rceil> = 1"
    by simp
  moreover have "nat \<lceil>0::real\<rceil> = 0"
    by simp
  note eval_model_on_split_no_batch [OF demo_prng_split_2 py_int_truediv_underflow this]
  ultimately show ?thesis
    by (simp add: split_iterator_def)
qed

text \<open>
  C1 (as amended): with \<open>num_examples\<close> and \<open>global_batch_size\<close> positive and below
  \<open>2 ^ 53\<close>, \<open>eval_model_on_split\<close> pulls exactly \<open>nb\<close>, the ceiling of
  \<open>num_examples / global_batch_size\<close>, batches from the split's iterator, which it leaves
  advanced by \<open>nb\<close>. When the per-batch evaluator returns for the i-th of them the
  device-summed values \<open>s i\<close>, \<open>l i\<close> and \<open>w i\<close> under the keys \<open>ssim\<close>, \<open>loss\<close> and
  \<open>weight\<close>, the result maps \<open>ssim\<close> to the running float32 sum of the \<open>s i\<close> divided by
  the running float32 sum of the \<open>w i\<close> and \<open>loss\<close> to the running float32 sum of the
  \<open>l i\<close> divided by the running float32 sum of the \<open>w i\<close>, and has no entry \<open>weight\<close>.
\<close>

theorem eval_model_on_split_normalized_sums:
  assumes "0 < num_examples" and "num_examples < 2 ^ 53"
      and "0 < global_batch_size" and "global_batch_size < 2 ^ 53"
      and "prng_split env rng 2 = [data_rng, model_rng]"
      and "it = split_iterator env self split data_rng data_dir global_batch_size"
      and "nb = nat \<lceil>real_of_int num_examples / real_of_int global_batch_size\<rceil>"
      and "\<forall>i<nb. eval_model env params (it i)
                      (prng_split env model_rng (local_device_count env))
                    = Inr [(''ssim'', s i # ss i), (''loss'', l i # ls i),
                           (''weight'', w i # ws i)]"
  shows "eval_model_on_split env self split num_examples global_batch_size params model_state
           rng data_dir global_step
         = (Inr [(''ssim'', f32_div (f32_sum (map s [0..<nb])) (f32_sum (map w [0..<nb]))),
                 (''loss'', f32_div (f32_sum (map l [0..<nb])) (f32_sum (map w [0..<nb])))],
            self\<lparr>eval_iters := (eval_iters self)(split \<mapsto> (\<lambda>i. it (nb + i)))\<rparr>)"
proof -
  from py_int_truediv_ceiling [OF assms(1,2,3,4)] obtain q where
    quot: "py_int_truediv num_examples global_batch_size = Inr q" and
    ceil: "\<lceil>q\<rceil> = \<lceil>real_of_int num_examples / real_of_int global_batch_size\<rceil>"
    by blast
  have nb: "nb = nat \<lceil>q\<rceil>"
    by (simp only: assms(7) ceil)
  have "0 < real_of_int num_examples / real_of_int global_batch_size"
    using assms(1,3) by simp
  then have "0 < \<lceil>real_of_int num_examples / real_of_int global_batch_size\<rceil>"
    by (simp only: less_ceiling_iff)
  then have pos: "0 < nb"
    by (simp add: assms(7))
  have ok: "\<forall>i<nb. synced_heads env params
                (prng_split env model_rng (local_device_count env)) (it i)
              = Some (s i, l i, w i)"
    using assms(8) by (auto intro: synced_heads_explicit)
  show ?thesis
    by (rule eval_model_on_split_ok [OF assms(5) quot assms(6) nb pos ok])
qed

text \<open>
  Three examples in batches of two on the small instance: two batches are pulled, with
  losses 1 and 0 and weight 1 each.
\<close>

theorem eval_model_on_split_normalized_sums_witness:
  "fst (eval_model_on_split demo_env demo_workload ''validation'' 3 2
          [Leaf (const_tensor [2] 1)] None [7] ''data'' 0)
     = Inr [(''ssim'', Fin 1), (''loss'', Fin (1 / 2))]
   \<and> map_option (\<lambda>it. it 0)
         (eval_iters (snd (eval_model_on_split demo_env demo_workload ''validation'' 3 2
                             [Leaf (const_tensor [2] 1)] None [7] ''data'' 0)) ''validation'')
     = Some [demo_batch 2 1]"
proof -
  let ?it = "\<lambda>i::nat. [demo_batch (real i) 1]"
  have it: "?it = split_iterator demo_env demo_workload ''validation'' [0, 7] ''data'' 2"
    by (simp add: split_iterator_def demo_workload_def demo_env_def)
  have nb: "2 = nat \<lceil>real_of_int 3 / real_of_int 2\<rceil>"
    by (simp add: demo_ceiling_3_2)
  have ev: "\<forall>i<2. eval_model demo_env [Leaf (const_tensor [2] 1)] (?it i)
                       (prng_split demo_env [1, 7] (local_device_count demo_env))
                   = Inr [(''ssim'', Fin 1 # []), (''loss'', Fin \<bar>real i - 1\<bar> # []),
                          (''weight'', Fin 1 # [])]"
    by (simp add: demo_prng_split_devices demo_eval_model)
  have "eval_model_on_split demo_env demo_workload ''validation'' 3 2
          [Leaf (const_tensor [2] 1)] None [7] ''data'' 0
        = (Inr [(''ssim'', f32_div (f32_sum (map (\<lambda>i. Fin 1) [0..<2]))
                               (f32_sum (map (\<lambda>i. Fin 1) [0..<2]))),
                (''loss'', f32_div (f32_sum (map (\<lambda>i. Fin \<bar>real i - 1\<bar>) [0..<2]))
                               (f32_sum (map (\<lambda>i. Fin 1) [0..<2])))],
           demo_workload\<lparr>eval_iters :=
              (eval_iters demo_workload)(''validation'' \<mapsto> (\<lambda>i. ?it (2 + i)))\<rparr>)"
    by (rule eval_model_on_split_normalized_sums
          [where data_rng = "[0, 7]" and model_rng = "[1, 7]" and ss = "\<lambda>i. []"
             and ls = "\<lambda>i. []" and ws = "\<lambda>i. []", OF _ _ _ _ _ it nb ev])
       (simp_all add: demo_prng_split_2)
  then show ?thesis
    by (simp add: upt_2 f32_sum_def f32_add_def f32_div_def demo_float32_ints
          demo_float32_fractions)
qed

text \<open>
  C10: the final normalisation has no guard. Take a call whose quotient
  \<^verbatim>\<open>num_examples / global_batch_size\<close> does not raise and whose loop evaluates \<open>nb\<close>
  batches, at least one. When every evaluated batch has the device-summed weight zero,
  the accumulated weight is zero, the division by it is reached without an error, and
  the returned \<open>ssim\<close> and \<open>loss\<close> are the accumulated sums divided by zero: neither is a
  finite number.
\<close>

theorem eval_model_on_split_zero_weight:
  assumes "prng_split env rng 2 = [data_rng, model_rng]"
      and "py_int_truediv num_examples global_batch_size = Inr q"
      and "it = split_iterator env self split data_rng data_dir global_batch_size"
      and "nb = nat \<lceil>q\<rceil>" and "0 < nb"
      and "\<forall>i<nb. eval_model env params (it i)
                      (prng_split env model_rng (local_device_count env))
                    = Inr [(''ssim'', s i # ss i), (''loss'', l i # ls i),
                           (''weight'', Fin 0 # ws i)]"
  shows "\<exists>v1 v2. fst (eval_model_on_split env self split num_examples global_batch_size params
                         model_state rng data_dir global_step)
                   = Inr [(''ssim'', v1), (''loss'', v2)]
                 \<and> f32_sum (map (\<lambda>i. Fin 0) [0..<nb]) = Fin 0
                 \<and> v1 = f32_div (f32_sum (map s [0..<nb])) (Fin 0)
                 \<and> v2 = f32_div (f32_sum (map l [0..<nb])) (Fin 0)
                 \<and> \<not> is_finite v1 \<and> \<not> is_finite v2"
proof -
  have ok: "\<forall>i<nb. synced_heads env params
                (prng_split env model_rng (local_device_count env)) (it i)
              = Some (s i, l i, Fin 0)"
    using assms(6) by (auto intro: synced_heads_explicit)
  show ?thesis
    unfolding eval_model_on_split_ok [OF assms(1,2,3,4,5) ok]
    by (simp add: f32_sum_zeros f32_div_zero_not_finite)
qed

text \<open>
  Two batches of weight zero, for the counts -3 and -2: the similarity sum 2 gives an
  infinity, the loss sum 0 gives not-a-number.
\<close>

theorem eval_model_on_split_zero_weight_witness:
  "fst (eval_model_on_split demo_env
          \<lparr>param_shapes = None, eval_iters = [''validation'' \<mapsto> (\<lambda>i. [demo_batch 1 0])]\<rparr>
          ''validation'' (- 3) (- 2) [Leaf (const_tensor [2] 1)] None [7] ''data'' 0)
     = Inr [(''ssim'', PInf), (''loss'', NaN)]"
proof -
  let ?self = "\<lparr>param_shapes = None,
                eval_iters = [''validation'' \<mapsto> (\<lambda>i::nat. [demo_batch 1 0])]\<rparr>"
  let ?it = "\<lambda>i::nat. [demo_batch 1 0]"
  have it: "?it = split_iterator demo_env ?self ''validation'' [0, 7] ''data'' (- 2)"
    by (simp add: split_iterator_def)
  have quot: "py_int_truediv (- 3) (- 2) = Inr (3 / 2)"
    using py_int_truediv_exact [of "- 2" "- 3" 3 "- 1"] by (simp add: powr_minus)
  have nb: "2 = nat \<lceil>(3::real) / 2\<rceil>" and pos: "0 < (2::nat)"
    by (simp_all add: demo_ceiling_3_2)
  have ev: "\<forall>i<2. eval_model demo_env [Leaf (const_tensor [2] 1)] (?it i)
                       (prng_split demo_env [1, 7] (local_device_count demo_env))
                   = Inr [(''ssim'', Fin 1 # []), (''loss'', Fin 0 # []),
                          (''weight'', Fin 0 # [])]"
    using demo_eval_model [of "Leaf (const_tensor [2] 1)" 1 0 "[0, 1, 7]"]
    by (simp add: demo_prng_split_devices)
  have "\<exists>v1 v2. fst (eval_model_on_split demo_env ?self ''validation'' (- 3) (- 2)
                        [Leaf (const_tensor [2] 1)] None [7] ''data'' 0)
                 = Inr [(''ssim'', v1), (''loss'', v2)]
               \<and> f32_sum (map (\<lambda>i. Fin 0) [0..<2]) = Fin 0
               \<and> v1 = f32_div (f32_sum (map (\<lambda>i. Fin 1) [0..<2])) (Fin 0)
               \<and> v2 = f32_div (f32_sum (map (\<lambda>i. Fin 0) [0..<2])) (Fin 0)
               \<and> \<not> is_finite v1 \<and> \<not> is_finite v2"
    by (rule eval_model_on_split_zero_weight
          [where data_rng = "[0, 7]" and model_rng = "[1, 7]" and ss = "\<lambda>i. []"
             and ls = "\<lambda>i. []" and ws = "\<lambda>i. []", OF demo_prng_split_2 quot it nb pos ev])
  then show ?thesis
    by (auto simp: upt_2 f32_sum_def f32_add_def f32_div_def demo_float32_ints)
qed

subsection \<open>The cache of iterators\<close>

lemma eval_model_on_split_state:
  "snd (eval_model_on_split env self split num_examples global_batch_size params model_state
          rng data_dir global_step)
   = (case prng_split env rng 2 of
        [data_rng, model_rng] \<Rightarrow>
          snd (eval_loop env split params
                 (prng_split env model_rng (local_device_count env))
                 (num_batches num_examples global_batch_size)
                 [(''ssim'', PyFloat (Fin 0)), (''loss'', PyFloat (Fin 0)),
                  (''weight'', PyFloat (Fin 0))]
                 (self\<lparr>eval_iters := (eval_iters self)
                    (split \<mapsto> split_iterator env self split data_rng data_dir
                                global_batch_size)\<rparr>))
      | _ \<Rightarrow> self)"
proof (cases "eval_iters self split")
  case None
  then show ?thesis
    by (simp add: eval_model_on_split_def split_iterator_def num_batches_def Let_def
             split: list.split prod.split sum.split)
next
  case (Some it)
  then have "(eval_iters self)(split \<mapsto> it) = eval_iters self"
    by (rule map_upd_triv)
  then show ?thesis
    using Some
    by (simp add: eval_model_on_split_def split_iterator_def num_batches_def Let_def
             split: list.split prod.split sum.split)
qed

lemma eval_model_on_split_other_splits:
  assumes "other \<noteq> split"
  shows "eval_iters (snd (eval_model_on_split env self split num_examples global_batch_size
                            params model_state rng data_dir global_step)) other
         = eval_iters self other"
  unfolding eval_model_on_split_state
  using assms by (simp add: Let_def eval_loop_other_splits split: list.split)

lemma eval_model_on_split_cached_entry:
  assumes "eval_iters self split = Some it"
  shows "\<exists>k\<le>num_batches num_examples global_batch_size.
           eval_iters (snd (eval_model_on_split env self split num_examples
                              global_batch_size params model_state rng data_dir
                              global_step)) split
           = Some (\<lambda>i. it (k + i))"
proof -
  have triv: "(eval_iters self)(split \<mapsto> it) = eval_iters self"
    using assms by (rule map_upd_triv)
  have zero: "\<exists>k\<le>n. eval_iters self split = Some (\<lambda>i. it (k + i))" for n :: nat
    using assms by (intro exI [of _ 0]) simp
  have loop: "\<exists>k\<le>n. eval_iters (snd (eval_loop env split params rngs n tot self)) split
                   = Some (\<lambda>i. it (k + i))" for rngs n tot
    using eval_loop_entry [OF assms, of n env params rngs tot] by blast
  show ?thesis
    unfolding eval_model_on_split_state
    using assms zero loop by (simp add: split_iterator_def triv split: list.split)
qed

lemma eval_model_on_split_built_entry:
  assumes "eval_iters self split = None"
      and "prng_split env rng 2 = [data_rng, model_rng]"
  shows "\<exists>k\<le>num_batches num_examples global_batch_size.
           eval_iters (snd (eval_model_on_split env self split num_examples
                              global_batch_size params model_state rng data_dir
                              global_step)) split
           = Some (\<lambda>i. build_input_queue env data_rng split data_dir global_batch_size
                          True (k + i))"
proof -
  let ?it = "build_input_queue env data_rng split data_dir global_batch_size True"
  let ?self1 = "self\<lparr>eval_iters := (eval_iters self)(split \<mapsto> ?it)\<rparr>"
  have c: "eval_iters ?self1 split = Some ?it"
    by simp
  have loop: "\<exists>k\<le>n. eval_iters (snd (eval_loop env split params rngs n tot ?self1)) split
                   = Some (\<lambda>i. ?it (k + i))" for rngs n tot
    using eval_loop_entry [OF c, of n env params rngs tot] by blast
  have "snd (eval_model_on_split env self split num_examples global_batch_size params
               model_state rng data_dir global_step)
        = snd (eval_loop env split params
                 (prng_split env model_rng (local_device_count env))
                 (num_batches num_examples global_batch_size)
                 [(''ssim'', PyFloat (Fin 0)), (''loss'', PyFloat (Fin 0)),
                  (''weight'', PyFloat (Fin 0))] ?self1)"
    unfolding eval_model_on_split_state using assms
    by (simp add: split_iterator_def)
  then show ?thesis
    using loop by (simp only:)
qed

lemma eval_model_on_split_cached_builder_irrelevant:
  assumes "eval_iters self split = Some it"
  shows "eval_model_on_split (env\<lparr>build_input_queue := q\<rparr>) self split num_examples
           global_batch_size params model_state rng data_dir global_step
         = eval_model_on_split env self split num_examples global_batch_size params
             model_state rng data_dir global_step"
  using assms
  by (simp add: eval_model_on_split_def eval_loop_builder_irrelevant Let_def
           split: list.split sum.split)

lemma eval_model_on_split_later_call:
  assumes "prng_split env rng 2 = [data_rng, model_rng]"
  shows "\<exists>it1. eval_iters (snd (eval_model_on_split env self split num_examples
                                   global_batch_size params model_state rng data_dir
                                   global_step)) split = Some it1
           \<and> (\<forall>env2 n2 g2 params2 state2 rng2 dir2 step2.
                 \<exists>k. eval_iters
                        (snd (eval_model_on_split env2
                                (snd (eval_model_on_split env self split num_examples
                                        global_batch_size params model_state rng data_dir
                                        global_step))
                                split n2 g2 params2 state2 rng2 dir2 step2)) split
                      = Some (\<lambda>i. it1 (k + i)))"
proof -
  let ?self1 = "snd (eval_model_on_split env self split num_examples global_batch_size params
                       model_state rng data_dir global_step)"
  have "\<exists>it1. eval_iters ?self1 split = Some it1"
  proof (cases "eval_iters self split")
    case None
    from eval_model_on_split_built_entry [OF None assms] show ?thesis
      by blast
  next
    case (Some it)
    from eval_model_on_split_cached_entry [OF Some] show ?thesis
      by blast
  qed
  then obtain it1 where it1: "eval_iters ?self1 split = Some it1"
    by blast
  have "\<exists>k. eval_iters (snd (eval_model_on_split env2 ?self1 split n2 g2 params2 state2 rng2
                                 dir2 step2)) split
             = Some (\<lambda>i. it1 (k + i))" for env2 n2 g2 params2 state2 rng2 dir2 step2
    using eval_model_on_split_cached_entry [OF it1] by blast
  then show ?thesis
    using it1 by blast
qed

text \<open>
  C7: for every call of \<open>eval_model_on_split\<close> on a split,
  \<^item> the cache entries of all other splits are unchanged;
  \<^item> when the cache holds an iterator for the split, the entry after the call is that
    same iterator, advanced by the \<open>k\<close> batches that the call pulled, at most the count
    of its loop, and the call is the same whatever the builder of input queues is: it
    does not rebuild;
  \<^item> when the cache holds none (and the key splits in two), the entry after the call is
    the iterator that the builder returns for the split, advanced by the batches pulled.
  Last, after a call (whose key splits in two) the cache holds an iterator \<open>it1\<close> for the
  split, and every later call for the split, whatever its other arguments and its
  builder, leaves in the cache that same \<open>it1\<close>, advanced.
\<close>

theorem eval_iters_cache:
  "(\<forall>other. other \<noteq> split \<longrightarrow>
       eval_iters (snd (eval_model_on_split env self split num_examples global_batch_size
                          params model_state rng data_dir global_step)) other
       = eval_iters self other)
   \<and> (\<forall>it. eval_iters self split = Some it \<longrightarrow>
         (\<exists>k\<le>num_batches num_examples global_batch_size.
            eval_iters (snd (eval_model_on_split env self split num_examples
                               global_batch_size params model_state rng data_dir
                               global_step)) split
            = Some (\<lambda>i. it (k + i)))
         \<and> (\<forall>q. eval_model_on_split (env\<lparr>build_input_queue := q\<rparr>) self split
                   num_examples global_batch_size params model_state rng data_dir global_step
                 = eval_model_on_split env self split num_examples global_batch_size params
                     model_state rng data_dir global_step))
   \<and> (\<forall>data_rng model_rng.
         eval_iters self split = None \<and> prng_split env rng 2 = [data_rng, model_rng] \<longrightarrow>
         (\<exists>k\<le>num_batches num_examples global_batch_size.
            eval_iters (snd (eval_model_on_split env self split num_examples
                               global_batch_size params model_state rng data_dir
                               global_step)) split
            = Some (\<lambda>i. build_input_queue env data_rng split data_dir global_batch_size
                           True (k + i))))
   \<and> (\<forall>data_rng model_rng.
         prng_split env rng 2 = [data_rng, model_rng] \<longrightarrow>
         (\<exists>it1. eval_iters (snd (eval_model_on_split env self split num_examples
                                     global_batch_size params model_state rng data_dir
                                     global_step)) split = Some it1
            \<and> (\<forall>env2 n2 g2 params2 state2 rng2 dir2 step2.
                  \<exists>k. eval_iters
                         (snd (eval_model_on_split env2
                                 (snd (eval_model_on_split env self split num_examples
                                         global_batch_size params model_state rng data_dir
                                         global_step))
                                 split n2 g2 params2 state2 rng2 dir2 step2)) split
                       = Some (\<lambda>i. it1 (k + i)))))"
proof (intro conjI allI impI)
  fix data_rng model_rng
  assume "prng_split env rng 2 = [data_rng, model_rng]"
  then show "\<exists>it1. eval_iters (snd (eval_model_on_split env self split num_examples
                                        global_batch_size params model_state rng data_dir
                                        global_step)) split = Some it1
               \<and> (\<forall>env2 n2 g2 params2 state2 rng2 dir2 step2.
                     \<exists>k. eval_iters
                            (snd (eval_model_on_split env2
                                    (snd (eval_model_on_split env self split num_examples
                                            global_batch_size params model_state rng data_dir
                                            global_step))
                                    split n2 g2 params2 state2 rng2 dir2 step2)) split
                          = Some (\<lambda>i. it1 (k + i)))"
    by (rule eval_model_on_split_later_call)
next
  fix other :: string
  assume "other \<noteq> split"
  then show "eval_iters (snd (eval_model_on_split env self split num_examples
                                global_batch_size params model_state rng data_dir
                                global_step)) other
             = eval_iters self other"
    by (rule eval_model_on_split_other_splits)
next
  fix it
  assume "eval_iters self split = Some it"
  then show "\<exists>k\<le>num_batches num_examples global_batch_size.
               eval_iters (snd (eval_model_on_split env self split num_examples
                                  global_batch_size params model_state rng data_dir
                                  global_step)) split
               = Some (\<lambda>i. it (k + i))"
    by (rule eval_model_on_split_cached_entry)
next
  fix it q
  assume "eval_iters self split = Some it"
  then show "eval_model_on_split (env\<lparr>build_input_queue := q\<rparr>) self split num_examples
               global_batch_size params model_state rng data_dir global_step
             = eval_model_on_split env self split num_examples global_batch_size params
                 model_state rng data_dir global_step"
    by (rule eval_model_on_split_cached_builder_irrelevant)
next
  fix data_rng model_rng
  assume "eval_iters self split = None \<and> prng_split env rng 2 = [data_rng, model_rng]"
  then show "\<exists>k\<le>num_batches num_examples global_batch_size.
               eval_iters (snd (eval_model_on_split env self split num_examples
                                  global_batch_size params model_state rng data_dir
                                  global_step)) split
               = Some (\<lambda>i. build_input_queue env data_rng split data_dir
                              global_batch_size True (k + i))"
    by (auto intro: eval_model_on_split_built_entry)
qed

text \<open>
  A call on the empty cache stores the built queue and leaves the other splits without
  an entry; a call on a cache that holds a queue continues that queue, also when the
  builder would return empty batches.
\<close>

theorem eval_iters_cache_witness:
  "eval_iters (snd (eval_model_on_split demo_env demo_workload ''validation'' 3 2
                      [Leaf (const_tensor [2] 1)] None [7] ''data'' 0)) ''train'' = None
   \<and> (\<exists>k\<le>2. eval_iters (snd (eval_model_on_split demo_env demo_workload ''validation'' 3 2
                                [Leaf (const_tensor [2] 1)] None [7] ''data'' 0)) ''validation''
              = Some (\<lambda>i. [demo_batch (real (k + i)) 1]))
   \<and> (\<exists>k\<le>2. eval_iters (snd (eval_model_on_split demo_env
                                \<lparr>param_shapes = None,
                                 eval_iters = [''validation'' \<mapsto> (\<lambda>i. [demo_batch 5 (real i)])]\<rparr>
                                ''validation'' 3 2 [Leaf (const_tensor [2] 1)] None [7]
                                ''data'' 0)) ''validation''
              = Some (\<lambda>i. [demo_batch 5 (real (k + i))]))
   \<and> eval_model_on_split (demo_env\<lparr>build_input_queue := (\<lambda>r s d g f i. [])\<rparr>)
         \<lparr>param_shapes = None,
          eval_iters = [''validation'' \<mapsto> (\<lambda>i. [demo_batch 5 (real i)])]\<rparr>
         ''validation'' 3 2 [Leaf (const_tensor [2] 1)] None [7] ''data'' 0
       = eval_model_on_split demo_env
           \<lparr>param_shapes = None,
            eval_iters = [''validation'' \<mapsto> (\<lambda>i. [demo_batch 5 (real i)])]\<rparr>
           ''validation'' 3 2 [Leaf (const_tensor [2] 1)] None [7] ''data'' 0"
proof -
  let ?cached = "\<lparr>param_shapes = None,
                  eval_iters = [''validation'' \<mapsto> (\<lambda>i::nat. [demo_batch 5 (real i)])]\<rparr>"
  have b: "build_input_queue demo_env [0, 7] ''validation'' ''data'' 2 True
           = (\<lambda>i. [demo_batch (real i) 1])"
    by (simp add: demo_env_def)
  note fresh = eval_iters_cache
    [where env = demo_env and self = demo_workload and split = "''validation''"
       and num_examples = 3 and global_batch_size = 2
       and params = "[Leaf (const_tensor [2] 1)]" and model_state = None and rng = "[7]"
       and data_dir = "''data''" and global_step = 0]
  note cached = eval_iters_cache
    [where env = demo_env and self = ?cached and split = "''validation''"
       and num_examples = 3 and global_batch_size = 2
       and params = "[Leaf (const_tensor [2] 1)]" and model_state = None and rng = "[7]"
       and data_dir = "''data''" and global_step = 0]
  have 1: "eval_iters (snd (eval_model_on_split demo_env demo_workload ''validation'' 3 2
                              [Leaf (const_tensor [2] 1)] None [7] ''data'' 0)) ''train''
           = None"
    using fresh by (simp add: demo_workload_def)
  have 2: "\<exists>k\<le>2. eval_iters (snd (eval_model_on_split demo_env demo_workload ''validation''
                                      3 2 [Leaf (const_tensor [2] 1)] None [7] ''data'' 0))
                      ''validation''
                    = Some (\<lambda>i. [demo_batch (real (k + i)) 1])"
    using fresh demo_prng_split_2 [of "[7]"] demo_num_batches
    by (simp add: demo_workload_def b)
  have 3: "\<exists>k\<le>2. eval_iters (snd (eval_model_on_split demo_env ?cached ''validation'' 3 2
                                      [Leaf (const_tensor [2] 1)] None [7] ''data'' 0))
                      ''validation''
                    = Some (\<lambda>i. [demo_batch 5 (real (k + i))])"
    using cached demo_num_batches by simp
  have 4: "eval_model_on_split (demo_env\<lparr>build_input_queue := (\<lambda>r s d g f i. [])\<rparr>) ?cached
             ''validation'' 3 2 [Leaf (const_tensor [2] 1)] None [7] ''data'' 0
           = eval_model_on_split demo_env ?cached ''validation'' 3 2
               [Leaf (const_tensor [2] 1)] None [7] ''data'' 0"
    using cached by simp
  show ?thesis
    using 1 2 3 4 by (intro conjI)
qed

subsection \<open>The order of the batches\<close>







subsection \<open>The per-batch evaluator\<close>

lemma collect_all_Inr:
  assumes "\<forall>x\<in>set xs. f x = Inr (g x)"
  shows "collect (map f xs) = Inr (map g xs)"
  using assms by (induction xs) simp_all

lemma zip3_nth:
  assumes "length ps = length bs" and "length rs = length bs"
  shows "zip ps (zip bs rs) = map (\<lambda>d. (ps ! d, bs ! d, rs ! d)) [0..<length bs]"
  using assms by (intro nth_equalityI) simp_all

lemma eval_model_local_ok:
  assumes "model_fn env params batch None EVAL rng (Some (Fin 0)) None False
           = Inr (outputs, state)"
      and "batch ''targets'' = Some targets" and "batch ''mean'' = Some mean"
      and "batch ''std'' = Some std" and "batch ''volume_max'' = Some volume_max"
      and "batch ''weights'' = Some weights"
      and "loss_fn targets outputs = Inr losses"
  shows "eval_model_local env params batch rng
         = Inr (jnp_sum (ssim env targets outputs mean std volume_max), jnp_sum losses,
                jnp_sum weights)"
  using assms by (simp add: eval_model_local_def)

text \<open>
  C3: \<open>eval_model\<close> runs on every device the forward pass \<open>model_fn\<close> in mode \<open>EVAL\<close> with
  dropout rate 0. With \<open>outputs d\<close> the result of that pass on device \<open>d\<close>, it returns the
  mapping with the keys \<open>ssim\<close>, \<open>loss\<close> and \<open>weight\<close>, which hold on every device the sum
  over all devices of, respectively, the summed structural-similarity scores of the
  shard, the summed per-example losses of the shard, and the summed weights of the shard.
\<close>

theorem eval_model_device_sums:
  assumes "length params = length batch" and "length rng = length batch"
      and "length batch \<le> local_device_count env" and "batch \<noteq> []"
      and "\<forall>d<length batch.
             model_fn env (params ! d) (batch ! d) None EVAL (rng ! d) (Some (Fin 0)) None False
               = Inr (outputs d, state d)
             \<and> (batch ! d) ''targets'' = Some (targets d)
             \<and> (batch ! d) ''mean'' = Some (mean d)
             \<and> (batch ! d) ''std'' = Some (std d)
             \<and> (batch ! d) ''volume_max'' = Some (volume_max d)
             \<and> (batch ! d) ''weights'' = Some (weights d)
             \<and> loss_fn (targets d) (outputs d) = Inr (losses d)"
  shows "eval_model env params batch rng
         = Inr [(''ssim'',
                 replicate (length batch)
                   (fsum (map (\<lambda>d. jnp_sum (ssim env (targets d) (outputs d) (mean d) (std d)
                                                (volume_max d)))
                              [0..<length batch]))),
                (''loss'',
                 replicate (length batch)
                   (fsum (map (\<lambda>d. jnp_sum (losses d)) [0..<length batch]))),
                (''weight'',
                 replicate (length batch)
                   (fsum (map (\<lambda>d. jnp_sum (weights d)) [0..<length batch])))]"
proof -
  let ?n = "length batch"
  let ?local = "\<lambda>d. (jnp_sum (ssim env (targets d) (outputs d) (mean d) (std d) (volume_max d)),
                      jnp_sum (losses d), jnp_sum (weights d))"
  have each: "\<forall>d\<in>set [0..<?n].
                (case (params ! d, batch ! d, rng ! d) of
                   (p, b, r) \<Rightarrow> eval_model_local env p b r) = Inr (?local d)"
    using assms(5) by (auto intro: eval_model_local_ok)
  have "collect (map (\<lambda>(p, b, r). eval_model_local env p b r) (zip params (zip batch rng)))
        = collect (map (\<lambda>d. case (params ! d, batch ! d, rng ! d) of
                               (p, b, r) \<Rightarrow> eval_model_local env p b r) [0..<?n])"
    by (simp only: zip3_nth [OF assms(1,2)] map_map comp_def)
  also have "\<dots> = Inr (map ?local [0..<?n])"
    using each by (rule collect_all_Inr)
  finally have c: "collect (map (\<lambda>(p, b, r). eval_model_local env p b r)
                              (zip params (zip batch rng)))
                   = Inr (map ?local [0..<?n])" .
  show ?thesis
    using assms(1-4) by (simp add: eval_model_def c psum_def comp_def)
qed

text \<open>
  Two devices with one example each: losses 2 and 0, weights 2 and 5.
\<close>

theorem eval_model_device_sums_witness:
  "eval_model (demo_env\<lparr>local_device_count := 2\<rparr>)
     [Leaf (const_tensor [2] 1), Leaf (const_tensor [2] 1)]
     [demo_batch 3 2, demo_batch 1 5] [[0], [1]]
   = Inr [(''ssim'', [Fin 2, Fin 2]), (''loss'', [Fin 2, Fin 2]), (''weight'', [Fin 7, Fin 7])]"
proof -
  let ?env = "demo_env\<lparr>local_device_count := 2\<rparr>"
  let ?batch = "[demo_batch 3 2, demo_batch 1 5]"
  let ?params = "[Leaf (const_tensor [2] 1), Leaf (const_tensor [2] 1)]"
  let ?rng = "[[0::nat], [1]]"
  let ?c = "\<lambda>d::nat. if d = 0 then 3 else (1::real)"
  let ?w = "\<lambda>d::nat. if d = 0 then 2 else (5::real)"
  have h: "\<forall>d<length ?batch.
             model_fn ?env (?params ! d) (?batch ! d) None EVAL (?rng ! d) (Some (Fin 0)) None
                 False
               = Inr (const_tensor [1, 2] (?c d), None)
             \<and> (?batch ! d) ''targets'' = Some (const_tensor [1, 2] 1)
             \<and> (?batch ! d) ''mean'' = Some (const_tensor [1] 0)
             \<and> (?batch ! d) ''std'' = Some (const_tensor [1] 1)
             \<and> (?batch ! d) ''volume_max'' = Some (const_tensor [1] 1)
             \<and> (?batch ! d) ''weights'' = Some (const_tensor [1] (?w d))
             \<and> loss_fn (const_tensor [1, 2] 1) (const_tensor [1, 2] (?c d))
                 = Inr \<lparr>shape = [1], data = [Fin \<bar>?c d - 1\<bar>]\<rparr>"
    by (simp add: less_Suc_eq model_fn_def demo_batch_def demo_env_def demo_loss_fn
             del: One_nat_def)
  from eval_model_device_sums
         [where env = ?env and params = ?params and batch = ?batch and rng = ?rng,
          OF _ _ _ _ h]
  show ?thesis
    by (simp add: upt_2 demo_env_def const_tensor_def jnp_sum_def fsum_def)
qed

subsection \<open>The model initialiser\<close>

lemma jnp_zeros_entries:
  assumes "0 \<notin> set s"
  shows "shape (jnp_zeros s) = s \<and> set (data (jnp_zeros s)) = {Fin 0} \<and> wf_tensor (jnp_zeros s)"
proof -
  have "prod_list s \<noteq> 0"
    using assms by (simp add: prod_list_zero_iff)
  then show ?thesis
    by (simp add: jnp_zeros_def wf_tensor_def)
qed

text \<open>
  C6: \<open>init_model_fn\<close> initialises the network on the all-zero input of shape
  (13, 320, 320); with \<open>params\<close> the parameter collection that the initialisation
  returns, it records the shapes of \<open>params\<close> in the field \<open>param_shapes\<close>, and returns
  one copy of \<open>params\<close> per local device together with the auxiliary state \<open>None\<close>.
\<close>

theorem init_model_fn_replicated_params:
  assumes "unet_init env rng (jnp_zeros [13, 320, 320]) ''params'' = Some params"
  shows "init_model_fn env self rng
         = (Inr (replicate (local_device_count env) params, None),
            self\<lparr>param_shapes := Some (map_pytree shape params)\<rparr>)
         \<and> shape (jnp_zeros [13, 320, 320]) = [13, 320, 320]
         \<and> set (data (jnp_zeros [13, 320, 320])) = {Fin 0}"
proof -
  have "(0::nat) \<notin> set [13, 320, 320]"
    by simp
  from jnp_zeros_entries [OF this] show ?thesis
    using assms by (simp add: init_model_fn_def jax_utils_replicate_def Let_def)
qed

text \<open>
  The small instance on two devices.
\<close>

theorem init_model_fn_replicated_params_witness:
  "init_model_fn (demo_env\<lparr>local_device_count := 2\<rparr>) demo_workload [7]
   = (Inr ([Leaf (const_tensor [2] 1), Leaf (const_tensor [2] 1)], None),
      \<lparr>param_shapes = Some (Leaf [2]), eval_iters = Map.empty\<rparr>)"
proof -
  have "unet_init (demo_env\<lparr>local_device_count := 2\<rparr>) [7] (jnp_zeros [13, 320, 320]) ''params''
        = Some (Leaf (const_tensor [2] 1))"
    by (simp add: demo_env_def)
  from init_model_fn_replicated_params [OF this, of demo_workload]
  show ?thesis
    by (simp add: demo_env_def demo_workload_def const_tensor_def numeral_2_eq_2)
qed

subsection \<open>Arrays of the same shape\<close>

lemma broadcast_rev_same: "broadcast_rev xs xs = Some xs"
  by (induction xs) simp_all

lemma broadcast_shapes_same: "broadcast_shapes s s = Some s"
  by (simp add: broadcast_shapes_def broadcast_rev_same)

lemma ravel_unravel:
  assumes "i < prod_list s"
  shows "ravel s (unravel s i) = i"
  using assms
proof (induction s arbitrary: i)
  case Nil
  then show ?case by simp
next
  case (Cons d ds)
  have pos: "0 < prod_list ds"
    using Cons.prems by (cases "prod_list ds = 0") simp_all
  then have "i mod prod_list ds < prod_list ds"
    by simp
  then have "ravel ds (unravel ds (i mod prod_list ds)) = i mod prod_list ds"
    by (rule Cons.IH)
  then show ?case
    by simp
qed

lemma unravel_ones:
  assumes "i < prod_list s"
  shows "map2 (\<lambda>d j. if d = 1 then 0 else j) s (unravel s i) = unravel s i"
  using assms
proof (induction s arbitrary: i)
  case Nil
  then show ?case by simp
next
  case (Cons d ds)
  have pos: "0 < prod_list ds"
    using Cons.prems by (cases "prod_list ds = 0") simp_all
  then have "i mod prod_list ds < prod_list ds"
    by simp
  then have ih: "map2 (\<lambda>d j. if d = 1 then 0 else j) ds (unravel ds (i mod prod_list ds))
                 = unravel ds (i mod prod_list ds)"
    by (rule Cons.IH)
  have "d = 1 \<Longrightarrow> i div prod_list ds = 0"
    using Cons.prems by simp
  then show ?case
    using ih by auto
qed

lemma broadcast_index_same:
  assumes "i < prod_list s"
  shows "broadcast_index s s i = i"
  unfolding broadcast_index_def
  by (simp only: diff_self_eq_0 drop_0 unravel_ones [OF assms] ravel_unravel [OF assms])

lemma broadcast_to_same:
  assumes "wf_tensor t"
  shows "broadcast_to t (shape t) = t"
proof -
  have "map (\<lambda>i. data t ! broadcast_index (shape t) (shape t) i) [0..<prod_list (shape t)]
        = map (\<lambda>i. data t ! i) [0..<prod_list (shape t)]"
    by (rule map_cong) (simp_all add: broadcast_index_same)
  also have "\<dots> = data t"
    using assms map_nth [of "data t"] by (simp add: wf_tensor_def)
  finally show ?thesis
    by (simp add: broadcast_to_def)
qed

lemma jnp_subtract_same_shape:
  assumes "shape a = shape b" and "wf_tensor a" and "wf_tensor b"
  shows "jnp_subtract a b = Inr \<lparr>shape = shape a, data = map2 fsub (data a) (data b)\<rparr>"
proof -
  have "broadcast_to a (shape a) = a" and "broadcast_to b (shape a) = b"
    using assms broadcast_to_same [of a] broadcast_to_same [of b] by simp_all
  then show ?thesis
    using assms(1) by (simp add: jnp_subtract_def broadcast_shapes_same)
qed

lemma fsum_single: "fsum [x] = x"
  by (simp add: fsum_def)

lemma fdiv_one: "fdiv x (Fin 1) = x"
  by (cases x) simp_all

lemma index_bound:
  fixes i j m dn :: nat
  assumes "i < dn" and "j < m"
  shows "i * m + j < dn * m"
proof -
  have "i * m + j < i * m + m"
    using assms(2) by simp
  also have "\<dots> = Suc i * m"
    by simp
  also have "\<dots> \<le> dn * m"
    using assms(1) by (intro mult_le_mono1) simp
  finally show ?thesis .
qed

subsection \<open>The loss function\<close>

lemma abs_diff_slice:
  fixes os ls :: "num list"
  assumes "length os = dn * m" and "length ls = dn * m" and "p < dn"
  shows "map (\<lambda>j. map fabs (map2 fsub os ls) ! (p * m + j)) [0..<m]
         = map2 (\<lambda>out lab. fabs (fsub out lab)) (take m (drop (p * m) os))
             (take m (drop (p * m) ls))"
proof (rule nth_equalityI)
  have "p * m + m \<le> dn * m"
    using assms(3) index_bound [of p dn 0 "Suc 0"]
    by (metis Suc_leI add.commute mult_Suc mult_le_mono1)
  then show "length (map (\<lambda>j. map fabs (map2 fsub os ls) ! (p * m + j)) [0..<m])
        = length (map2 (\<lambda>out lab. fabs (fsub out lab)) (take m (drop (p * m) os))
                    (take m (drop (p * m) ls)))"
    using assms(1,2) by simp
next
  fix j
  assume "j < length (map (\<lambda>j. map fabs (map2 fsub os ls) ! (p * m + j)) [0..<m])"
  then have j: "j < m"
    by simp
  then have b: "p * m + j < dn * m"
    using assms(3) by (intro index_bound)
  have "p * m \<le> dn * m"
    using assms(3) by (intro mult_le_mono1) simp
  then have le: "p * m \<le> length os" "p * m \<le> length ls"
    using assms(1,2) by simp_all
  show "map (\<lambda>j. map fabs (map2 fsub os ls) ! (p * m + j)) [0..<m] ! j
        = map2 (\<lambda>out lab. fabs (fsub out lab)) (take m (drop (p * m) os))
            (take m (drop (p * m) ls)) ! j"
    using j b le by (simp add: assms(1,2))
qed

lemma example_entries_length:
  assumes "wf_tensor t" and "shape t = dn # rest" and "i < dn"
  shows "length (example_entries t i) = prod_list rest"
proof -
  have "i * prod_list rest + prod_list rest \<le> dn * prod_list rest"
    using assms(3) by (metis Suc_leI add.commute mult_Suc mult_le_mono1)
  then show ?thesis
    using assms(1,2) by (simp add: example_entries_def wf_tensor_def Let_def)
qed

lemma loss_fn_same_shape:
  assumes "shape outputs_batch = shape label_batch"
      and "shape outputs_batch = dn # rest"
      and "wf_tensor outputs_batch" and "wf_tensor label_batch"
  shows "loss_fn label_batch outputs_batch
         = Inr \<lparr>shape = [dn],
                data = map (\<lambda>i. mean_abs_diff (example_entries outputs_batch i)
                                                (example_entries label_batch i))
                           [0..<dn]\<rparr>"
proof -
  let ?m = "prod_list rest"
  let ?os = "data outputs_batch" and ?ls = "data label_batch"
  let ?x = "map fabs (map2 fsub ?os ?ls)"
  have sl: "shape label_batch = dn # rest"
    using assms(1,2) by simp
  have lo: "length ?os = dn * ?m" and ll: "length ?ls = dn * ?m"
    using assms(3,4) by (simp_all add: wf_tensor_def assms(2) sl)
  have sub: "jnp_subtract outputs_batch label_batch
             = Inr \<lparr>shape = dn # rest, data = map2 fsub ?os ?ls\<rparr>"
    using jnp_subtract_same_shape [OF assms(1,3,4)] assms(2) by simp
  have entry: "mean_abs_diff (example_entries outputs_batch i) (example_entries label_batch i)
               = fdiv (fsum (map (\<lambda>j. ?x ! (i * ?m + j)) [0..<?m])) (Fin (real ?m))"
    if "i < dn" for i
  proof -
    have "length (example_entries outputs_batch i) = ?m"
      using assms(3,2) that by (rule example_entries_length)
    moreover have "map2 (\<lambda>out lab. fabs (fsub out lab)) (example_entries outputs_batch i)
                     (example_entries label_batch i)
                   = map (\<lambda>j. ?x ! (i * ?m + j)) [0..<?m]"
      using abs_diff_slice [OF lo ll that] by (simp add: example_entries_def assms(2) sl)
    ultimately show ?thesis
      by (simp add: mean_abs_diff_def)
  qed
  have means: "map (\<lambda>i. mean_abs_diff (example_entries outputs_batch i)
                                        (example_entries label_batch i)) [0..<dn]
               = map (\<lambda>i. fdiv (fsum (map (\<lambda>j. ?x ! (i * ?m + j)) [0..<?m])) (Fin (real ?m)))
                     [0..<dn]"
    by (rule map_cong) (simp_all add: entry)
  show ?thesis
  proof (cases rest)
    case Nil
    have "?x = map (\<lambda>i. ?x ! i) [0..<dn]"
      using lo ll Nil map_nth [of ?x] by simp
    also have "\<dots> = map (\<lambda>i. fdiv (fsum (map (\<lambda>j. ?x ! (i * ?m + j)) [0..<?m]))
                                   (Fin (real ?m))) [0..<dn]"
      using Nil by (simp add: fsum_single fdiv_one)
    finally have "?x = map (\<lambda>i. mean_abs_diff (example_entries outputs_batch i)
                                                (example_entries label_batch i)) [0..<dn]"
      by (simp only: means)
    then show ?thesis
      using Nil assms(2) by (simp add: loss_fn_def sub ndim_def mean_axes_from_1_def jnp_abs_def)
  next
    case (Cons d1 rest')
    have "mean_axes_from_1 (ndim outputs_batch)
            (jnp_abs \<lparr>shape = dn # rest, data = map2 fsub ?os ?ls\<rparr>)
          = \<lparr>shape = [dn],
             data = map (\<lambda>i. fdiv (fsum (map (\<lambda>j. ?x ! (i * ?m + j)) [0..<?m])) (Fin (real ?m)))
                        [0..<dn]\<rparr>"
      using Cons assms(2) by (simp add: ndim_def mean_axes_from_1_def jnp_abs_def Let_def)
    then show ?thesis
      by (simp add: loss_fn_def sub means)
  qed
qed

text \<open>
  C2: for an outputs array and a targets array of the same shape with at least one
  axis, \<open>loss_fn\<close> returns the array that holds, for each batch element \<open>i\<close> (the index
  along axis 0), the mean of the absolute differences between the entries of the outputs
  and of the targets of that element, taken over all the other axes; nothing else, in
  particular no regularisation term, is added.
\<close>

theorem loss_fn_mean_absolute_error:
  assumes "shape outputs_batch = shape label_batch"
      and "shape outputs_batch = dn # rest"
      and "wf_tensor outputs_batch" and "wf_tensor label_batch"
  shows "loss_fn label_batch outputs_batch
         = Inr \<lparr>shape = [dn],
                data = map (\<lambda>i. mean_abs_diff (example_entries outputs_batch i)
                                                (example_entries label_batch i))
                           [0..<dn]\<rparr>"
  using assms by (rule loss_fn_same_shape)

text \<open>
  Two examples of two entries: absolute differences 1, 3 and 2, 2.
\<close>

theorem loss_fn_mean_absolute_error_witness:
  "loss_fn \<lparr>shape = [2, 2], data = [Fin 0, Fin 0, Fin 2, Fin (- 2)]\<rparr>
           \<lparr>shape = [2, 2], data = [Fin 1, Fin 3, Fin 0, Fin 0]\<rparr>
   = Inr \<lparr>shape = [2], data = [Fin 2, Fin 2]\<rparr>"
  using loss_fn_mean_absolute_error
          [where outputs_batch = "\<lparr>shape = [2, 2], data = [Fin 1, Fin 3, Fin 0, Fin 0]\<rparr>"
             and label_batch = "\<lparr>shape = [2, 2], data = [Fin 0, Fin 0, Fin 2, Fin (- 2)]\<rparr>"
             and dn = 2 and rest = "[2]"]
  by (simp add: wf_tensor_def example_entries_def mean_abs_diff_def upt_2 fsum_def fsub_def)











end
